theory Spec2Isabelle
  imports Complex_Main
begin

section \<open>JavaScript values, errors and effects\<close>

text \<open>
  The classifier of \<^verbatim>\<open>src/ImageClassifier/index.js\<close> is a JavaScript class on top of
  TensorFlow.js. Counts and indices are naturals. A number the classifier stores or
  a tensor holds is the real it stands for; where the classifier computes with numbers
  itself (the batch size of \<^verbatim>\<open>train\<close>) the computation is the one of IEEE doubles,
  below. A thrown exception (or a rejected promise of an \<^verbatim>\<open>async\<close> method) is a
  value of type \<open>error\<close>.
\<close>

datatype error =
    JSError string  \<comment> \<open>\<^verbatim>\<open>throw new Error(msg)\<close> of the source\<close>
  | TypeError       \<comment> \<open>raised by the JavaScript runtime\<close>
  | TFError         \<comment> \<open>raised inside TensorFlow.js (bad input, shape mismatch)\<close>

text \<open>
  The second and third argument of \<^verbatim>\<open>predict\<close> and the fields of a queue entry hold a
  number, a function or nothing. A function is known by an identifier only. In a
  condition, zero and nothing count as false.
\<close>

datatype jsarg = JSNumber nat | JSFunction nat | JSNull

fun truthy :: "jsarg \<Rightarrow> bool" where
  "truthy (JSNumber n) = (n \<noteq> 0)"
| "truthy (JSFunction f) = True"
| "truthy JSNull = False"

section \<open>JavaScript arithmetic\<close>

text \<open>
  A JavaScript number is an IEEE 754 double: a multiple of \<open>2\<^sup>e\<close> with a factor of at
  most 53 bits, \<open>e \<ge> -1074\<close>. An operation returns the double nearest to the exact
  result, the one with an even factor when two are equally near, and an infinity when
  that double would reach \<open>2\<^sup>1\<^sup>0\<^sup>2\<^sup>4\<close>. \<open>to_double\<close> is this rounding; a number
  written in the source (\<^verbatim>\<open>0.4\<close>) is read as the double nearest to it.
\<close>

definition round_even :: "real \<Rightarrow> int" where
  "round_even x =
     (let f = \<lfloor>x\<rfloor>; d = x - of_int f
      in if d < 1 / 2 then f else if 1 / 2 < d then f + 1 else if even f then f else f + 1)"

definition ulp_exponent :: "real \<Rightarrow> int" where
  "ulp_exponent x = max (\<lfloor>log 2 \<bar>x\<bar>\<rfloor> - 52) (- 1074)"

definition to_double :: "real \<Rightarrow> real" where
  "to_double x =
     (if x = 0 then 0
      else of_int (round_even (x / 2 powi ulp_exponent x)) * 2 powi ulp_exponent x)"

datatype number = Finite real | PlusInfinity | MinusInfinity

definition overflow :: "real \<Rightarrow> number" where
  "overflow r =
     (if 2 ^ 1024 \<le> r then PlusInfinity
      else if r \<le> - (2 ^ 1024) then MinusInfinity
      else Finite r)"

text \<open>\<^verbatim>\<open>a * b\<close> on two finite numbers, \<^verbatim>\<open>Math.floor(x)\<close> and \<^verbatim>\<open>x > 0\<close>.\<close>

definition js_times :: "real \<Rightarrow> real \<Rightarrow> number" where
  "js_times a b = overflow (to_double (to_double a * to_double b))"

fun Math_floor :: "number \<Rightarrow> number" where
  "Math_floor (Finite r) = Finite (of_int \<lfloor>r\<rfloor>)"
| "Math_floor PlusInfinity = PlusInfinity"
| "Math_floor MinusInfinity = MinusInfinity"

fun greater_zero :: "number \<Rightarrow> bool" where
  "greater_zero (Finite r) = (0 < r)"
| "greater_zero PlusInfinity = True"
| "greater_zero MinusInfinity = False"

section \<open>Tensors and the TensorFlow.js operations the classifier calls\<close>

text \<open>
  A tensor is its shape and its entries in row-major order (what \<^verbatim>\<open>data()\<close> returns).
  TensorFlow.js is a library, not code of the classifier: each operation is modelled
  by its shape rule and its argument checks; where the entries come out of a numeric
  kernel of the back end (bilinear resampling, a network's forward pass, training) the
  kernel is a parameter. \<^verbatim>\<open>tf.tidy\<close>, \<^verbatim>\<open>tf.keep\<close> and \<^verbatim>\<open>dispose\<close> manage memory
  only and have no counterpart here.
\<close>

record tensor =
  shape :: "nat list"
  vals :: "real list"

definition tabulate :: "nat \<Rightarrow> (nat \<Rightarrow> 'a) \<Rightarrow> 'a list" where
  "tabulate n f = map f [0..<n]"

text \<open>
  An image or video element, as \<^verbatim>\<open>tf.fromPixels\<close> reads it: its height, its width
  and its RGB bytes, row by row, three per pixel. A video element stands for the frame
  it shows when it is read.
\<close>

record image =
  height :: nat
  width :: nat
  pixel :: "nat \<Rightarrow> nat"

datatype element = HTMLImageElement image | HTMLVideoElement image

fun element_image :: "element \<Rightarrow> image" where
  "element_image (HTMLImageElement i) = i"
| "element_image (HTMLVideoElement v) = v"

text \<open>\<^verbatim>\<open>tf.fromPixels(input)\<close>: an int32 tensor of shape \<open>[height, width, 3]\<close>; it throws on \<open>null\<close>.\<close>

definition fromPixels :: "image option \<Rightarrow> error + tensor" where
  "fromPixels input =
     (case input of
        None \<Rightarrow> Inl TFError
      | Some i \<Rightarrow>
          Inr \<lparr>shape = [height i, width i, 3],
               vals = tabulate (height i * width i * 3) (\<lambda>k. real (pixel i k))\<rparr>)"

definition toFloat :: "tensor \<Rightarrow> tensor" where
  "toFloat x = x"

definition div_scalar :: "tensor \<Rightarrow> real \<Rightarrow> tensor" where
  "div_scalar x c = x\<lparr>vals := map (\<lambda>v. v / c) (vals x)\<rparr>"

definition sub_scalar :: "tensor \<Rightarrow> real \<Rightarrow> tensor" where
  "sub_scalar x c = x\<lparr>vals := map (\<lambda>v. v - c) (vals x)\<rparr>"

definition expandDims0 :: "tensor \<Rightarrow> tensor" where
  "expandDims0 x = x\<lparr>shape := 1 # shape x\<rparr>"

text \<open>\<^verbatim>\<open>x.reshape(newShape)\<close> throws unless the new shape has as many entries as \<open>x\<close>.\<close>

definition reshape :: "tensor \<Rightarrow> nat list \<Rightarrow> error + tensor" where
  "reshape x newShape =
     (if prod_list newShape = prod_list (shape x) then Inr (x\<lparr>shape := newShape\<rparr>)
      else Inl TFError)"

text \<open>
  The numeric kernels and the tables the classifier is given from outside:
  the label table \<open>IMAGENET_CLASSES\<close> and the helper \<open>processVideo\<close> (both of the
  repository's \<^verbatim>\<open>utils\<close>, not part of the source at hand), and TensorFlow.js's
  bilinear resampling, its slice at a fractional offset, the initial weights of a new
  head and its training procedure.
\<close>

record environment =
  IMAGENET_CLASSES :: "nat \<rightharpoonup> string"
  processVideo :: "image \<Rightarrow> nat \<Rightarrow> image"
  resize_kernel :: "tensor \<Rightarrow> nat \<Rightarrow> nat \<Rightarrow> nat \<Rightarrow> real"
  slice_kernel :: "tensor \<Rightarrow> real list \<Rightarrow> nat list \<Rightarrow> nat \<Rightarrow> real"
  initial_forward :: "nat \<Rightarrow> nat \<Rightarrow> real list \<Rightarrow> nat \<Rightarrow> real"
  fitted_forward ::
    "(real list \<Rightarrow> nat \<Rightarrow> real) \<Rightarrow> tensor \<Rightarrow> tensor option \<Rightarrow> number \<Rightarrow> nat \<Rightarrow> real
       \<Rightarrow> real list \<Rightarrow> nat \<Rightarrow> real"

text \<open>
  \<^verbatim>\<open>x.slice(begin, size)\<close> on a rank-3 tensor (\<open>bgn\<close> and \<open>sz\<close> below): the result
  has shape \<open>sz\<close>; the call throws unless \<open>bgn + sz\<close> stays inside \<open>x\<close>. At a
  whole-numbered \<open>bgn\<close> entry \<open>(i, j, c)\<close> of the result is entry
  \<open>(bgn\<^sub>0 + i, bgn\<^sub>1 + j, bgn\<^sub>2 + c)\<close> of \<open>x\<close>; at a fractional \<open>bgn\<close> what is read
  depends on the back end.
\<close>

definition whole :: "real \<Rightarrow> bool" where
  "whole r \<longleftrightarrow> real_of_int \<lfloor>r\<rfloor> = r"

definition slice_source :: "nat list \<Rightarrow> nat \<Rightarrow> nat \<Rightarrow> nat \<Rightarrow> nat list \<Rightarrow> nat \<Rightarrow> nat" where
  "slice_source dims b0 b1 b2 sz k =
     (let i = k div (sz ! 1 * sz ! 2);
          j = (k div (sz ! 2)) mod (sz ! 1);
          c = k mod (sz ! 2)
      in ((b0 + i) * (dims ! 1) + (b1 + j)) * (dims ! 2) + (b2 + c))"

definition slice :: "environment \<Rightarrow> tensor \<Rightarrow> real list \<Rightarrow> nat list \<Rightarrow> error + tensor" where
  "slice env x bgn sz =
     (if length (shape x) = 3 \<and> length bgn = 3 \<and> length sz = 3
         \<and> list_all (\<lambda>b. 0 \<le> b) bgn
         \<and> list_all2 (\<lambda>(b, s) d. b + real s \<le> real d) (zip bgn sz) (shape x)
      then Inr \<lparr>shape = sz,
                vals =
                  (if list_all whole bgn
                   then tabulate (prod_list sz)
                          (\<lambda>k. vals x ! slice_source (shape x) (nat \<lfloor>bgn ! 0\<rfloor>)
                                  (nat \<lfloor>bgn ! 1\<rfloor>) (nat \<lfloor>bgn ! 2\<rfloor>) sz k)
                   else tabulate (prod_list sz) (slice_kernel env x bgn sz))\<rparr>
      else Inl TFError)"

text \<open>
  \<^verbatim>\<open>tf.image.resizeBilinear(images, [newHeight, newWidth])\<close> on a rank-3 tensor: the
  result has shape \<open>[newHeight, newWidth, channels]\<close>, its entries are the kernel's.
\<close>

definition resizeBilinear :: "environment \<Rightarrow> tensor \<Rightarrow> nat \<Rightarrow> nat \<Rightarrow> error + tensor" where
  "resizeBilinear env x newHeight newWidth =
     (case shape x of
        [h, w, c] \<Rightarrow>
          Inr \<lparr>shape = [newHeight, newWidth, c],
               vals = tabulate (newHeight * newWidth * c) (resize_kernel env x newHeight newWidth)\<rparr>
      | _ \<Rightarrow> Inl TFError)"

text \<open>
  \<^verbatim>\<open>tf.oneHot(tf.tensor1d([label]), depth)\<close>: one row of width \<open>depth\<close>, a one at
  column \<open>label\<close> (none when \<open>label\<close> is out of range); the library refuses a depth
  below 2.
\<close>

definition oneHot :: "nat \<Rightarrow> nat \<Rightarrow> error + tensor" where
  "oneHot label depth =
     (if depth < 2 then Inl TFError
      else Inr \<lparr>shape = [1, depth],
                vals = tabulate depth (\<lambda>i. if i = label then 1 else 0)\<rparr>)"

text \<open>
  \<^verbatim>\<open>a.concat(b, 0)\<close>: the rows of \<open>a\<close> followed by the rows of \<open>b\<close>; it throws unless
  the two agree in every dimension but the first.
\<close>

definition concat0 :: "tensor \<Rightarrow> tensor \<Rightarrow> error + tensor" where
  "concat0 a b =
     (if shape a \<noteq> [] \<and> shape b \<noteq> [] \<and> tl (shape a) = tl (shape b)
      then Inr \<lparr>shape = (hd (shape a) + hd (shape b)) # tl (shape a), vals = vals a @ vals b\<rparr>
      else Inl TFError)"

text \<open>
  A network (\<^verbatim>\<open>tf.Model\<close>): the shape of one input and of one output, and its forward
  pass. \<^verbatim>\<open>model.predict(x)\<close> takes a batch: it throws unless every dimension of \<open>x\<close>
  after the first is the input shape, and returns one output per row of the batch.
\<close>

record model =
  inputShape :: "nat list"
  outputShape :: "nat list"
  forward :: "real list \<Rightarrow> nat \<Rightarrow> real"

definition model_predict :: "model \<Rightarrow> tensor \<Rightarrow> error + tensor" where
  "model_predict m x =
     (if shape x \<noteq> [] \<and> tl (shape x) = inputShape m
      then Inr \<lparr>shape = hd (shape x) # outputShape m,
                vals = tabulate (hd (shape x) * prod_list (outputShape m)) (forward m (vals x))\<rparr>
      else Inl TFError)"

section \<open>Top-K ranking: \<^verbatim>\<open>getTopKClasses\<close>\<close>

record entry =
  e_value :: real
  e_index :: nat

record classAndProb =
  className :: "string option"
  probability :: real

text \<open>
  What a call observably does besides returning: a user callback invoked with the
  ranked predictions, the construction callback invoked, or a prediction suspended at
  \<^verbatim>\<open>await logits.data()\<close> with its logits, its \<open>topK\<close> and its callback.
\<close>

datatype event =
    Called nat "classAndProb list"
  | OnReady
  | Awaiting tensor nat jsarg
  | Rejected error

text \<open>The first loop: \<^verbatim>\<open>valuesAndIndices.push({ value: values[i], index: i })\<close>.\<close>

definition valuesAndIndices :: "real list \<Rightarrow> entry list" where
  "valuesAndIndices values =
     map (\<lambda>i. \<lparr>e_value = values ! i, e_index = i\<rparr>) [0..<length values]"

text \<open>
  \<^verbatim>\<open>valuesAndIndices.sort((a, b) => b.value - a.value)\<close>. \<open>Array.prototype.sort\<close>
  is the language's: it puts \<open>a\<close> before \<open>b\<close> when the comparator is negative and, as
  ECMAScript requires since its 2019 edition, keeps the input order of elements the
  comparator does not separate. It is modelled as a stable insertion sort.
\<close>

definition compareFn :: "entry \<Rightarrow> entry \<Rightarrow> real" where
  "compareFn a b = e_value b - e_value a"

fun insert_sorted :: "('a \<Rightarrow> 'a \<Rightarrow> real) \<Rightarrow> 'a \<Rightarrow> 'a list \<Rightarrow> 'a list" where
  "insert_sorted cmp x [] = [x]"
| "insert_sorted cmp x (y # ys) =
     (if cmp x y \<le> 0 then x # y # ys else y # insert_sorted cmp x ys)"

definition array_sort :: "('a \<Rightarrow> 'a \<Rightarrow> real) \<Rightarrow> 'a list \<Rightarrow> 'a list" where
  "array_sort cmp xs = foldr (insert_sorted cmp) xs []"

text \<open>
  The second loop fills \<open>topkValues\<close> and \<open>topkIndices\<close> (typed arrays of length
  \<open>topK\<close>, zero-filled). Reading \<^verbatim>\<open>valuesAndIndices[i].value\<close> at an index past the
  end of the array is a property access on \<open>undefined\<close>: a \<open>TypeError\<close>.
\<close>

function fill_topk ::
  "entry list \<Rightarrow> nat \<Rightarrow> nat \<Rightarrow> real list \<Rightarrow> nat list \<Rightarrow> error + real list \<times> nat list" where
  "fill_topk vai topK i topkValues topkIndices =
     (if i < topK then
        (if i < length vai then
           fill_topk vai topK (i + 1)
             (topkValues[i := e_value (vai ! i)]) (topkIndices[i := e_index (vai ! i)])
         else Inl TypeError)
      else Inr (topkValues, topkIndices))"
  by pat_completeness auto
termination
  by (relation "measure (\<lambda>(vai, topK, i, tv, ti). topK - i)") auto

declare fill_topk.simps [simp del]

text \<open>
  The third loop pairs each index with its class name, looked up in the table
  \<open>IMAGENET_CLASSES\<close> (a missing key reads as \<open>undefined\<close>, here \<open>None\<close>).
\<close>

definition topClassesAndProbs ::
  "environment \<Rightarrow> real list \<Rightarrow> nat list \<Rightarrow> classAndProb list" where
  "topClassesAndProbs env topkValues topkIndices =
     map (\<lambda>i. \<lparr>className = IMAGENET_CLASSES env (topkIndices ! i), probability = topkValues ! i\<rparr>)
       [0..<length topkIndices]"

text \<open>The ranking itself, from the values read off the logits to the returned array.\<close>

definition rank_topk ::
  "real list \<Rightarrow> nat \<Rightarrow> error + real list \<times> nat list" where
  "rank_topk values topK =
     fill_topk (array_sort compareFn (valuesAndIndices values)) topK 0
       (replicate topK 0) (replicate topK 0)"

text \<open>
  \<^verbatim>\<open>if (callback) { callback(topClassesAndProbs); }\<close>: a function is called, a falsy
  value is skipped, and calling a non-zero number is a \<open>TypeError\<close>.
\<close>

definition invoke :: "jsarg \<Rightarrow> classAndProb list \<Rightarrow> event list \<times> (error + classAndProb list)" where
  "invoke callback r =
     (if truthy callback
      then (case callback of
              JSFunction f \<Rightarrow> ([Called f r], Inr r)
            | _ \<Rightarrow> ([], Inl TypeError))
      else ([], Inr r))"

definition getTopKClasses ::
  "environment \<Rightarrow> tensor \<Rightarrow> nat \<Rightarrow> jsarg \<Rightarrow> event list \<times> (error + classAndProb list)" where
  "getTopKClasses env logits topK callback =
     (case rank_topk (vals logits) topK of
        Inl e \<Rightarrow> ([], Inl e)
      | Inr (topkValues, topkIndices) \<Rightarrow>
          invoke callback (topClassesAndProbs env topkValues topkIndices))"

text \<open>
  The order the sort establishes on entries with distinct, ascending indices: higher
  value first, and among equal values lower index first.
\<close>

definition ranked_before :: "entry \<Rightarrow> entry \<Rightarrow> bool" where
  "ranked_before a b \<longleftrightarrow>
     e_value b < e_value a \<or> (e_value a = e_value b \<and> e_index a < e_index b)"

section \<open>From an image to the network's input\<close>

text \<open>
  \<^verbatim>\<open>cropImage\<close>: the centred square of side \<open>min(height, width)\<close>. The offsets are
  JavaScript numbers: halves are not rounded.
\<close>

definition cropImage :: "environment \<Rightarrow> tensor \<Rightarrow> error + tensor" where
  "cropImage env img =
     (let sz = min (shape img ! 0) (shape img ! 1);
          centerHeight = real (shape img ! 0) / 2;
          beginHeight = centerHeight - real sz / 2;
          centerWidth = real (shape img ! 1) / 2;
          beginWidth = centerWidth - real sz / 2
      in slice env img [beginHeight, beginWidth, 0] [sz, sz, 3])"

text \<open>\<^verbatim>\<open>imgToTensor\<close>, the transform of \<^verbatim>\<open>addImage\<close> and of the warm-up.\<close>

definition imgToTensor :: "environment \<Rightarrow> image option \<Rightarrow> error + tensor" where
  "imgToTensor env input =
     (case fromPixels input of
        Inl e \<Rightarrow> Inl e
      | Inr img \<Rightarrow>
          (case cropImage env img of
             Inl e \<Rightarrow> Inl e
           | Inr croppedImage \<Rightarrow>
               (let batchedImage = expandDims0 croppedImage
                in Inr (sub_scalar (div_scalar (toFloat batchedImage) 127) 1))))"

text \<open>
  The transform written out inside \<^verbatim>\<open>predict\<close>, up to the tensor \<open>batched\<close> that is
  handed to the network.
\<close>

definition predict_batched :: "environment \<Rightarrow> nat \<Rightarrow> image option \<Rightarrow> error + tensor" where
  "predict_batched env imageSize' imgToPredict =
     (case fromPixels imgToPredict of
        Inl e \<Rightarrow> Inl e
      | Inr px \<Rightarrow>
          (let pixels = toFloat px
           in case resizeBilinear env pixels imageSize' imageSize' of
                Inl e \<Rightarrow> Inl e
              | Inr resized \<Rightarrow>
                  (let offset = 127.5;
                       normalized = div_scalar (sub_scalar resized offset) offset
                   in reshape normalized [1, imageSize', imageSize', 3])))"

section \<open>The classifier\<close>

definition DEFAULTS_learningRate :: real where "DEFAULTS_learningRate = 0.0001"
definition DEFAULTS_hiddenUnits :: nat where "DEFAULTS_hiddenUnits = 100"
definition DEFAULTS_epochs :: nat where "DEFAULTS_epochs = 20"
definition DEFAULTS_numClasses :: nat where "DEFAULTS_numClasses = 2"
definition DEFAULTS_batchSize :: real where "DEFAULTS_batchSize = 0.4"

text \<open>The \<open>options\<close> object: a key is absent (\<open>None\<close>) or holds a number.\<close>

record options =
  opt_epochs :: "nat option"
  opt_hiddenUnits :: "nat option"
  opt_numClasses :: "nat option"
  opt_learningRate :: "real option"
  opt_batchSize :: "real option"

text \<open>\<^verbatim>\<open>a || b\<close> on a number that may be absent: \<open>b\<close> when \<open>a\<close> is absent or zero.\<close>

definition js_or :: "'a::zero option \<Rightarrow> 'a \<Rightarrow> 'a" where
  "js_or a b = (case a of None \<Rightarrow> b | Some x \<Rightarrow> if x = 0 then b else x)"

text \<open>An entry of \<open>waitingPredictions\<close>: \<^verbatim>\<open>{ imgToPredict, num, callback }\<close>.\<close>

record queued =
  q_imgToPredict :: "element option"
  q_num :: nat
  q_callback :: jsarg

record classifier =
  mobilenet :: "model option"
  imageSize :: nat
  modelPath :: string
  topKPredictions :: nat
  modelLoaded :: bool
  video :: "image option"
  waitingPredictions :: "queued list"
  hasAnyTrainedClass :: bool
  customModel :: "model option"
  epochs :: nat
  hiddenUnits :: nat
  numClasses :: nat
  learningRate :: real
  batchSize :: real
  isPredicting :: bool
  mobilenetModified :: "model option"
  xs :: "tensor option"
  ys :: "tensor option"

text \<open>
  The synchronous part of the constructor. Its first argument counts only when it is
  a video element. The load it starts is \<open>loadModel\<close> followed by \<open>onModelLoaded\<close>
  below.
\<close>

definition constructor :: "environment \<Rightarrow> element option \<Rightarrow> options \<Rightarrow> classifier" where
  "constructor env video' opts =
     \<lparr>mobilenet = None,
      imageSize = 224,
      modelPath = ''https://storage.googleapis.com/tfjs-models/tfjs/mobilenet_v1_0.25_224/model.json'',
      topKPredictions = 10,
      modelLoaded = False,
      video = (case video' of
                 Some (HTMLVideoElement v) \<Rightarrow> Some (processVideo env v 224)
               | _ \<Rightarrow> None),
      waitingPredictions = [],
      hasAnyTrainedClass = False,
      customModel = None,
      epochs = js_or (opt_epochs opts) DEFAULTS_epochs,
      hiddenUnits = js_or (opt_hiddenUnits opts) DEFAULTS_hiddenUnits,
      numClasses = js_or (opt_numClasses opts) DEFAULTS_numClasses,
      learningRate = js_or (opt_learningRate opts) DEFAULTS_learningRate,
      batchSize = js_or (opt_batchSize opts) DEFAULTS_batchSize,
      isPredicting = False,
      mobilenetModified = None,
      xs = None,
      ys = None\<rparr>"

text \<open>
  \<^verbatim>\<open>loadModel\<close>. What \<^verbatim>\<open>tf.loadModel(modelPath)\<close> resolves to and the output of its
  layer \<^verbatim>\<open>conv_pw_13_relu\<close> (shape and forward pass) come from the network: they are
  arguments. With a video bound, one warm-up prediction is run and dropped; if it
  throws, the load is rejected.
\<close>

definition loadModel ::
  "environment \<Rightarrow> classifier \<Rightarrow> model \<Rightarrow> nat list \<times> (real list \<Rightarrow> nat \<Rightarrow> real)
     \<Rightarrow> classifier \<times> (error + model)" where
  "loadModel env st loaded layer_output =
     (let st1 = st\<lparr>mobilenet := Some loaded\<rparr>;
          truncated = \<lparr>inputShape = inputShape loaded, outputShape = fst layer_output,
                       forward = snd layer_output\<rparr>
      in case video st1 of
           None \<Rightarrow> (st1, Inr truncated)
         | Some v \<Rightarrow>
             (case imgToTensor env (Some v) of
                Inl e \<Rightarrow> (st1, Inl e)
              | Inr t \<Rightarrow>
                  (case model_predict loaded t of
                     Inl e \<Rightarrow> (st1, Inl e)
                   | Inr warm \<Rightarrow> (st1, Inr truncated))))"

text \<open>
  \<^verbatim>\<open>predict(inputOrNum, numOrCallback, cb)\<close>. The first argument is an image element,
  a video element, a number or nothing. Before the model is loaded the call is queued;
  afterwards the logits are computed and the call is suspended at
  \<^verbatim>\<open>await logits.data()\<close> inside \<^verbatim>\<open>getTopKClasses\<close>, which finishes it.
\<close>

datatype input = Elem element | Num nat | NoInput

definition predict_logits :: "environment \<Rightarrow> classifier \<Rightarrow> image option \<Rightarrow> error + tensor" where
  "predict_logits env st imgToPredict =
     (case predict_batched env (imageSize st) imgToPredict of
        Inl e \<Rightarrow> Inl e
      | Inr batched \<Rightarrow>
          (case mobilenet st of
             None \<Rightarrow> Inl TypeError
           | Some m \<Rightarrow> model_predict m batched))"

definition predict ::
  "environment \<Rightarrow> classifier \<Rightarrow> input \<Rightarrow> jsarg \<Rightarrow> jsarg \<Rightarrow> classifier \<times> event list" where
  "predict env st inputOrNum numOrCallback cb =
     (let (st1, imgToPredict, numberOfClasses, callback) =
            (case inputOrNum of
               Elem (HTMLImageElement i) \<Rightarrow> (st, Some (HTMLImageElement i), None, cb)
             | Elem (HTMLVideoElement v) \<Rightarrow>
                 (let st' = (if video st = None
                             then st\<lparr>video := Some (processVideo env v (imageSize st))\<rparr>
                             else st)
                  in (st', map_option HTMLVideoElement (video st'), None, cb))
             | Num n \<Rightarrow> (st, map_option HTMLVideoElement (video st), Some n, numOrCallback)
             | NoInput \<Rightarrow> (st, map_option HTMLVideoElement (video st), None, numOrCallback));
          topK = js_or numberOfClasses (topKPredictions st1)
      in if \<not> modelLoaded st1
         then (st1\<lparr>waitingPredictions := waitingPredictions st1 @
                      [\<lparr>q_imgToPredict = imgToPredict, q_num = topK, q_callback = callback\<rparr>]\<rparr>,
               [])
         else (case predict_logits env st1 (map_option element_image imgToPredict) of
                 Inl e \<Rightarrow> (st1, [Rejected e])
               | Inr logits \<Rightarrow> (st1, [Awaiting logits topK callback])))"

text \<open>
  The handler of the load:
  \<^verbatim>\<open>waitingPredictions.forEach(i => this.predict(i.imgToPredict, i.num, i.callback))\<close>,
  then \<^verbatim>\<open>callback()\<close>.
\<close>

definition replay_input :: "queued \<Rightarrow> input" where
  "replay_input i = (case q_imgToPredict i of Some el \<Rightarrow> Elem el | None \<Rightarrow> NoInput)"

fun replay :: "environment \<Rightarrow> classifier \<Rightarrow> queued list \<Rightarrow> classifier \<times> event list" where
  "replay env st [] = (st, [])"
| "replay env st (i # rest) =
     (let (st1, ev1) = predict env st (replay_input i) (JSNumber (q_num i)) (q_callback i);
          (st2, ev2) = replay env st1 rest
      in (st2, ev1 @ ev2))"

definition onModelLoaded :: "environment \<Rightarrow> classifier \<Rightarrow> model \<Rightarrow> classifier \<times> event list" where
  "onModelLoaded env st net =
     (let st1 = st\<lparr>modelLoaded := True, mobilenetModified := Some net\<rparr>;
          (st2, ev) = replay env st1 (waitingPredictions st1)
      in (st2, ev @ [OnReady]))"

definition load ::
  "environment \<Rightarrow> classifier \<Rightarrow> model \<Rightarrow> nat list \<times> (real list \<Rightarrow> nat \<Rightarrow> real)
     \<Rightarrow> classifier \<times> event list" where
  "load env st loaded layer_output =
     (case loadModel env st loaded layer_output of
        (st1, Inl e) \<Rightarrow> (st1, [Rejected e])
      | (st1, Inr net) \<Rightarrow> onModelLoaded env st1 net)"

text \<open>
  \<^verbatim>\<open>addImage(label, callback, input)\<close>. Nothing happens before the model is loaded.
  The result tells whether the callback was reached; an exception leaves the fields
  assigned before it.
\<close>

definition addImage ::
  "environment \<Rightarrow> classifier \<Rightarrow> nat \<Rightarrow> image option \<Rightarrow> classifier \<times> (error + bool)" where
  "addImage env st label input =
     (if modelLoaded st then
        (case imgToTensor env (if input \<noteq> None then input else video st) of
           Inl e \<Rightarrow> (st, Inl e)
         | Inr processedImg \<Rightarrow>
             (case mobilenetModified st of
                None \<Rightarrow> (st, Inl TypeError)
              | Some net \<Rightarrow>
                  (case model_predict net processedImg of
                     Inl e \<Rightarrow> (st, Inl e)
                   | Inr prediction \<Rightarrow>
                       (case oneHot label (numClasses st) of
                          Inl e \<Rightarrow> (st, Inl e)
                        | Inr y \<Rightarrow>
                            (case xs st of
                               None \<Rightarrow>
                                 (st\<lparr>xs := Some prediction, ys := Some y,
                                     hasAnyTrainedClass := True\<rparr>, Inr True)
                             | Some oldX \<Rightarrow>
                                 (case concat0 oldX prediction of
                                    Inl e \<Rightarrow> (st, Inl e)
                                  | Inr newX \<Rightarrow>
                                      (let st1 = st\<lparr>xs := Some newX\<rparr>
                                       in case ys st1 of
                                            None \<Rightarrow> (st1, Inl TypeError)
                                          | Some oldY \<Rightarrow>
                                              (case concat0 oldY y of
                                                 Inl e \<Rightarrow> (st1, Inl e)
                                               | Inr newY \<Rightarrow>
                                                   (st1\<lparr>ys := Some newY\<rparr>, Inr True)))))))))
      else (st, Inr False))"

text \<open>
  \<^verbatim>\<open>train(onProgress)\<close>. The new head is a flatten layer over \<open>[7, 7, 256]\<close>, a dense
  layer of \<open>hiddenUnits\<close> units and a softmax layer of \<open>numClasses\<close> units. The batch
  size is \<^verbatim>\<open>Math.floor(this.xs.shape[0] * this.batchSize)\<close>, a product of doubles
  (not a number when the shape is empty). \<open>fit\<close> is started and not awaited: the head
  it trains is in place when \<open>train\<close> returns, its weights are those the training
  procedure reaches.
\<close>

definition sequential :: "environment \<Rightarrow> nat \<Rightarrow> nat \<Rightarrow> model" where
  "sequential env hiddenUnits' numClasses' =
     \<lparr>inputShape = [7, 7, 256], outputShape = [numClasses'],
      forward = initial_forward env hiddenUnits' numClasses'\<rparr>"

definition fit ::
  "environment \<Rightarrow> model \<Rightarrow> tensor \<Rightarrow> tensor option \<Rightarrow> number \<Rightarrow> nat \<Rightarrow> real \<Rightarrow> model" where
  "fit env m x y batchSize' epochs' learningRate' =
     m\<lparr>forward := fitted_forward env (forward m) x y batchSize' epochs' learningRate'\<rparr>"

definition train :: "environment \<Rightarrow> classifier \<Rightarrow> classifier \<times> (error + unit)" where
  "train env st =
     (if \<not> hasAnyTrainedClass st
      then (st, Inl (JSError ''Add some examples before training!''))
      else
        (let st1 = st\<lparr>isPredicting := False\<rparr>;
             m = sequential env (hiddenUnits st1) (numClasses st1);
             st2 = st1\<lparr>customModel := Some m\<rparr>
         in case xs st2 of
              None \<Rightarrow> (st2, Inl TypeError)
            | Some x \<Rightarrow>
                (case shape x of
                   [] \<Rightarrow> (st2, Inl (JSError ''Batch size is 0 or NaN. Please choose a non-zero fraction.''))
                 | n # dims \<Rightarrow>
                     (let batchSize' = Math_floor (js_times (real n) (batchSize st2))
                      in if \<not> greater_zero batchSize'
                         then (st2, Inl (JSError ''Batch size is 0 or NaN. Please choose a non-zero fraction.''))
                         else (st2\<lparr>customModel :=
                                      Some (fit env m x (ys st2) batchSize' (epochs st2) (learningRate st2))\<rparr>,
                               Inr ())))))"

section \<open>Sequences of calls\<close>

text \<open>
  A client constructs a classifier and then calls its methods; the load completes at
  some point in between. A run is the list of these calls, each with its arguments.
\<close>

datatype call =
    Load model "nat list \<times> (real list \<Rightarrow> nat \<Rightarrow> real)"
  | Predict input jsarg jsarg
  | AddImage nat "image option"
  | Train

fun step :: "environment \<Rightarrow> classifier \<Rightarrow> call \<Rightarrow> classifier" where
  "step env st (Load loaded layer_output) = fst (load env st loaded layer_output)"
| "step env st (Predict inputOrNum numOrCallback cb) = fst (predict env st inputOrNum numOrCallback cb)"
| "step env st (AddImage label input) = fst (addImage env st label input)"
| "step env st Train = fst (train env st)"

fun run :: "environment \<Rightarrow> classifier \<Rightarrow> call list \<Rightarrow> classifier" where
  "run env st [] = st"
| "run env st (c # cs) = run env (step env st c) cs"

text \<open>The number of \<open>addImage\<close> calls of a run that went through to their callback.\<close>

fun appended :: "environment \<Rightarrow> classifier \<Rightarrow> call list \<Rightarrow> nat" where
  "appended env st [] = 0"
| "appended env st (AddImage label input # cs) =
     (if snd (addImage env st label input) = Inr True then 1 else 0)
       + appended env (step env st (AddImage label input)) cs"
| "appended env st (c # cs) = appended env (step env st c) cs"

text \<open>The number of rows of a dataset tensor: its first dimension, none before the first example.\<close>

definition rows :: "tensor option \<Rightarrow> nat" where
  "rows t = (case t of None \<Rightarrow> 0 | Some x \<Rightarrow> (case shape x of [] \<Rightarrow> 0 | n # dims \<Rightarrow> n))"

text \<open>
  What a run lets the outside observe, in order: the events of its \<open>predict\<close> calls
  and of the completion of the load.
\<close>

fun emitted :: "environment \<Rightarrow> classifier \<Rightarrow> call \<Rightarrow> event list" where
  "emitted env st (Load loaded layer_output) = snd (load env st loaded layer_output)"
| "emitted env st (Predict inputOrNum numOrCallback cb) = snd (predict env st inputOrNum numOrCallback cb)"
| "emitted env st (AddImage label input) = []"
| "emitted env st Train = []"

fun trace :: "environment \<Rightarrow> classifier \<Rightarrow> call list \<Rightarrow> event list" where
  "trace env st [] = []"
| "trace env st (c # cs) = emitted env st c @ trace env (step env st c) cs"

text \<open>The \<open>predict\<close> calls of a run, in order, and whether a run is free of a load.\<close>

fun predict_calls :: "call list \<Rightarrow> (input \<times> jsarg \<times> jsarg) list" where
  "predict_calls [] = []"
| "predict_calls (Predict inputOrNum numOrCallback cb # cs) =
     (inputOrNum, numOrCallback, cb) # predict_calls cs"
| "predict_calls (c # cs) = predict_calls cs"

fun no_load :: "call list \<Rightarrow> bool" where
  "no_load [] = True"
| "no_load (Load loaded layer_output # cs) = False"
| "no_load (c # cs) = no_load cs"

text \<open>
  A queue entry captures a \<open>predict\<close> call when it holds the call's callback, the
  number of predictions asked for (\<open>topKPredictions\<close>, ten, when none was) and the
  call's element: the image element itself, or a video element for a call on a video
  element, and no image element for a call without an element.
\<close>

fun captures :: "queued \<Rightarrow> input \<times> jsarg \<times> jsarg \<Rightarrow> bool" where
  "captures q (Elem (HTMLImageElement i), numOrCallback, cb) =
     (q_imgToPredict q = Some (HTMLImageElement i) \<and> q_num q = 10 \<and> q_callback q = cb)"
| "captures q (Elem (HTMLVideoElement v), numOrCallback, cb) =
     ((case q_imgToPredict q of Some (HTMLVideoElement w) \<Rightarrow> True | _ \<Rightarrow> False)
      \<and> q_num q = 10 \<and> q_callback q = cb)"
| "captures q (Num n, numOrCallback, cb) =
     ((case q_imgToPredict q of Some (HTMLImageElement i) \<Rightarrow> False | _ \<Rightarrow> True)
      \<and> q_num q = (if n = 0 then 10 else n) \<and> q_callback q = numOrCallback)"
| "captures q (NoInput, numOrCallback, cb) =
     ((case q_imgToPredict q of Some (HTMLImageElement i) \<Rightarrow> False | _ \<Rightarrow> True)
      \<and> q_num q = 10 \<and> q_callback q = numOrCallback)"

text \<open>Every queue entry on a video element holds the video the classifier is bound to.\<close>

definition queue_inv :: "classifier \<Rightarrow> bool" where
  "queue_inv st \<longleftrightarrow>
     (\<forall>q \<in> set (waitingPredictions st).
        case q_imgToPredict q of Some (HTMLVideoElement w) \<Rightarrow> video st = Some w | _ \<Rightarrow> True)"

text \<open>
  What the replay of a queue entry comes to on the loaded classifier. The prediction is
  made on the entry's element, or on the bound video when the entry has none. It
  carries the entry's callback, except that for an entry without an element
  \<open>predict\<close> takes the entry's number for the callback; its \<open>topK\<close> is
  \<open>topKPredictions\<close>. It is suspended with the logits, or rejected with the error of
  computing them.
\<close>

definition replay_callback :: "queued \<Rightarrow> jsarg" where
  "replay_callback i =
     (case q_imgToPredict i of Some el \<Rightarrow> q_callback i | None \<Rightarrow> JSNumber (q_num i))"

definition replay_image :: "classifier \<Rightarrow> queued \<Rightarrow> image option" where
  "replay_image st i =
     (case q_imgToPredict i of Some el \<Rightarrow> Some (element_image el) | None \<Rightarrow> video st)"

definition replay_event :: "environment \<Rightarrow> classifier \<Rightarrow> queued \<Rightarrow> event" where
  "replay_event env st i =
     (case predict_logits env st (replay_image st i) of
        Inl e \<Rightarrow> Rejected e
      | Inr logits \<Rightarrow> Awaiting logits (topKPredictions st) (replay_callback i))"

section \<open>Turns of the event loop\<close>

text \<open>
  JavaScript runs one job at a time, to its end. A call of the client, and the handler
  of the load, run until they return; a prediction they start is left suspended at
  \<^verbatim>\<open>await logits.data()\<close>. It is finished by a later job, when its data has arrived:
  the rest of \<^verbatim>\<open>getTopKClasses\<close> ranks the values and calls the callback, and an
  exception there rejects the promise \<open>predict\<close> returned. The data of the suspended
  predictions may arrive in any order.

  The runtime is the classifier, the suspended predictions (logits, \<open>topK\<close>,
  callback) and the events so far, in order: predictions started or rejected, the
  construction callback, and callbacks called with a ranking.
\<close>

record runtime =
  obj :: classifier
  pending :: "(tensor \<times> nat \<times> jsarg) list"
  seen :: "event list"

datatype turn =
    Job call   \<comment> \<open>a call of the client, or the load completing\<close>
  | Data nat   \<comment> \<open>the data of the suspended prediction at this position arrives\<close>

fun started :: "event list \<Rightarrow> (tensor \<times> nat \<times> jsarg) list" where
  "started [] = []"
| "started (Awaiting logits topK callback # evs) = (logits, topK, callback) # started evs"
| "started (ev # evs) = started evs"

definition finish :: "environment \<Rightarrow> tensor \<times> nat \<times> jsarg \<Rightarrow> event list" where
  "finish env p =
     (case p of (logits, topK, callback) \<Rightarrow>
        (case getTopKClasses env logits topK callback of
           (evs, Inl e) \<Rightarrow> evs @ [Rejected e]
         | (evs, Inr results) \<Rightarrow> evs))"

fun turn_step :: "environment \<Rightarrow> runtime \<Rightarrow> turn \<Rightarrow> runtime" where
  "turn_step env rt (Job c) =
     \<lparr>obj = step env (obj rt) c,
      pending = pending rt @ started (emitted env (obj rt) c),
      seen = seen rt @ emitted env (obj rt) c\<rparr>"
| "turn_step env rt (Data j) =
     (if j < length (pending rt)
      then \<lparr>obj = obj rt,
            pending = take j (pending rt) @ drop (Suc j) (pending rt),
            seen = seen rt @ finish env (pending rt ! j)\<rparr>
      else rt)"

fun session :: "environment \<Rightarrow> runtime \<Rightarrow> turn list \<Rightarrow> runtime" where
  "session env rt [] = rt"
| "session env rt (t # ts) = session env (turn_step env rt t) ts"

definition new_classifier :: "environment \<Rightarrow> element option \<Rightarrow> options \<Rightarrow> runtime" where
  "new_classifier env video' opts = \<lparr>obj = constructor env video' opts, pending = [], seen = []\<rparr>"

text \<open>The calls among the turns, and the events that deliver a ranking to a callback.\<close>

fun client_calls :: "turn list \<Rightarrow> call list" where
  "client_calls [] = []"
| "client_calls (Job c # ts) = c # client_calls ts"
| "client_calls (Data j # ts) = client_calls ts"

fun delivery :: "event \<Rightarrow> bool" where
  "delivery (Called f results) = True"
| "delivery ev = False"

section \<open>The dataset along a run\<close>

text \<open>
  What holds of the dataset after \<open>n\<close> examples went in: the flag
  \<open>hasAnyTrainedClass\<close> is set exactly when there is an example, \<open>xs\<close> has \<open>n\<close> rows
  and \<open>ys\<close> is \<open>n\<close> rows of width \<open>numClasses\<close>.
\<close>

definition dataset_inv :: "classifier \<Rightarrow> nat \<Rightarrow> bool" where
  "dataset_inv st n \<longleftrightarrow>
     (hasAnyTrainedClass st \<longleftrightarrow> 0 < n)
     \<and> (case xs st of
          None \<Rightarrow> n = 0 \<and> ys st = None
        | Some x \<Rightarrow> 0 < n \<and> shape x \<noteq> [] \<and> hd (shape x) = n
                   \<and> map_option shape (ys st) = Some [n, numClasses st])"

text \<open>The configuration read from the options at construction.\<close>

definition config :: "classifier \<Rightarrow> nat \<times> nat \<times> nat \<times> real \<times> real" where
  "config st = (epochs st, hiddenUnits st, numClasses st, learningRate st, batchSize st)"

section \<open>Example data\<close>

text \<open>
  A small environment, a 224 by 224 image, and a network of MobileNet's shapes
  (input \<open>[224, 224, 3]\<close>, a thousand classes, the layer \<^verbatim>\<open>conv_pw_13_relu\<close> of shape
  \<open>[7, 7, 256]\<close>), on which the theorems below are instantiated.
\<close>

definition example_env :: environment where
  "example_env =
     \<lparr>IMAGENET_CLASSES = (\<lambda>i. if i < 1000 then Some ''class'' else None),
      processVideo = (\<lambda>v n. v\<lparr>height := n, width := n\<rparr>),
      resize_kernel = (\<lambda>x h w k. 0),
      slice_kernel = (\<lambda>x b s k. 0),
      initial_forward = (\<lambda>h n x k. 0),
      fitted_forward = (\<lambda>f x y b e l v k. 1 / 2)\<rparr>"

definition example_image :: image where
  "example_image = \<lparr>height = 224, width = 224, pixel = (\<lambda>k. 255)\<rparr>"

definition example_mobilenet :: model where
  "example_mobilenet =
     \<lparr>inputShape = [224, 224, 3], outputShape = [1000], forward = (\<lambda>x k. 1 / 1000)\<rparr>"

definition example_layer :: "nat list \<times> (real list \<Rightarrow> nat \<Rightarrow> real)" where
  "example_layer = ([7, 7, 256], (\<lambda>x k. 0))"

definition no_options :: options where
  "no_options =
     \<lparr>opt_epochs = None, opt_hiddenUnits = None, opt_numClasses = None,
      opt_learningRate = None, opt_batchSize = None\<rparr>"

definition zero_options :: options where
  "zero_options =
     \<lparr>opt_epochs = Some 0, opt_hiddenUnits = Some 0, opt_numClasses = Some 0,
      opt_learningRate = Some 0, opt_batchSize = Some 0\<rparr>"

text \<open>A small image, two rows of four pixels, whose bytes are numbered in reading order.\<close>

definition small_image :: image where
  "small_image = \<lparr>height = 2, width = 4, pixel = (\<lambda>k. k)\<rparr>"

definition one_example :: "call list" where
  "one_example = [Load example_mobilenet example_layer, AddImage 0 (Some example_image)]"

definition ten_examples :: "call list" where
  "ten_examples =
     [Load example_mobilenet example_layer,
      AddImage 0 (Some example_image), AddImage 1 (Some example_image),
      AddImage 0 (Some example_image), AddImage 1 (Some example_image),
      AddImage 0 (Some example_image), AddImage 1 (Some example_image),
      AddImage 0 (Some example_image), AddImage 1 (Some example_image),
      AddImage 0 (Some example_image), AddImage 1 (Some example_image)]"

definition trained_run :: "call list" where
  "trained_run =
     [Load example_mobilenet example_layer,
      AddImage 0 (Some example_image), AddImage 1 (Some example_image),
      AddImage 0 (Some example_image), Train]"

definition early_calls :: "call list" where
  "early_calls =
     [Predict (Elem (HTMLImageElement example_image)) JSNull (JSFunction 1),
      Predict (Elem (HTMLImageElement small_image)) JSNull (JSFunction 2)]"

definition late_calls :: "call list" where
  "late_calls = [Predict (Elem (HTMLImageElement example_image)) JSNull (JSFunction 3)]"

text \<open>Three examples, and a batch fraction just below a third.\<close>

definition three_examples :: "call list" where
  "three_examples =
     [Load example_mobilenet example_layer,
      AddImage 0 (Some example_image), AddImage 1 (Some example_image),
      AddImage 0 (Some example_image)]"

definition third_options :: options where
  "third_options = no_options\<lparr>opt_batchSize := Some 0.3333333333333333\<rparr>"

text \<open>
  The turns after the load: one more prediction, then the data of the three suspended
  predictions arrives, oldest first. And a call for three predictions on the bound video.
\<close>

definition late_turns :: "turn list" where
  "late_turns = map Job late_calls @ [Data 0, Data 0, Data 0]"

definition three_classes :: "call list" where
  "three_classes = [Predict (Num 3) (JSFunction 1) JSNull]"

text \<open>A classifier constructed on a video element and loaded.\<close>

definition video_classifier :: classifier where
  "video_classifier =
     run example_env (constructor example_env (Some (HTMLVideoElement example_image)) no_options)
       [Load example_mobilenet example_layer]"

section \<open>Properties of the arithmetic\<close>

lemma floor_log2:
  assumes "2 powi k \<le> x" and "x < 2 powi (k + 1)"
  shows "\<lfloor>log 2 x\<rfloor> = k"
proof -
  have pos: "0 < x"
    using assms(1) by (smt (verit) zero_less_power_int)
  have "2 powr (real_of_int k) \<le> x"
    using assms(1) by (simp add: powr_real_of_int')
  moreover have "x < 2 powr (real_of_int k + 1)"
    using assms(2) powr_real_of_int' [of 2 "k + 1"] by (simp add: add.commute)
  ultimately show ?thesis
    using pos by (simp add: floor_log_eq_powr_iff)
qed

text \<open>The double nearest to a number between \<open>2\<^sup>k\<close> and \<open>2\<^sup>k\<^sup>+\<^sup>1\<close>, in the normal range.\<close>

lemma to_double_eval:
  assumes "2 powi k \<le> \<bar>x\<bar>" and "\<bar>x\<bar> < 2 powi (k + 1)" and "- 1022 \<le> k"
  shows "to_double x = of_int (round_even (x / 2 powi (k - 52))) * 2 powi (k - 52)"
proof -
  have "x \<noteq> 0"
    using assms(1) by (smt (verit) zero_less_power_int)
  moreover have "ulp_exponent x = k - 52"
    using floor_log2 [OF assms(1,2)] assms(3) by (simp add: ulp_exponent_def)
  ultimately show ?thesis by (simp add: to_double_def)
qed

lemma to_double_1: "to_double 1 = 1"
  by (subst to_double_eval [of 0]) (simp_all add: round_even_def power_int_minus)

lemma to_double_3: "to_double 3 = 3"
  by (subst to_double_eval [of 1]) (simp_all add: round_even_def power_int_minus)

lemma to_double_10: "to_double 10 = 10"
  by (subst to_double_eval [of 3]) (simp_all add: round_even_def power_int_minus)

text \<open>The double written \<^verbatim>\<open>0.4\<close> is a little above four tenths.\<close>

lemma to_double_04: "to_double (2 / 5) = 3602879701896397 / 9007199254740992"
  by (subst to_double_eval [of "- 2"]) (simp_all add: round_even_def power_int_minus)

lemma to_double_third: "to_double (3333333333333333 / 10000000000000000) = 6004799503160661 / 18014398509481984"
  by (subst to_double_eval [of "- 2"]) (simp_all add: round_even_def power_int_minus)

lemma js_times_1_04: "js_times 1 (2 / 5) = Finite (3602879701896397 / 9007199254740992)"
proof -
  have "to_double (3602879701896397 / 9007199254740992) = 3602879701896397 / 9007199254740992"
    by (subst to_double_eval [of "- 2"]) (simp_all add: round_even_def power_int_minus)
  then show ?thesis
    by (simp add: js_times_def to_double_1 to_double_04 overflow_def)
qed

lemma js_times_3_04: "js_times 3 (2 / 5) = Finite (1351079888211149 / 1125899906842624)"
proof -
  have "to_double (3 * (3602879701896397 / 9007199254740992)) = 1351079888211149 / 1125899906842624"
    by (subst to_double_eval [of 0]) (simp_all add: round_even_def power_int_minus)
  then show ?thesis
    by (simp add: js_times_def to_double_3 to_double_04 overflow_def)
qed

lemma js_times_10_04: "js_times 10 (2 / 5) = Finite 4"
proof -
  have "to_double (10 * (3602879701896397 / 9007199254740992)) = 4"
    by (subst to_double_eval [of 2]) (simp_all add: round_even_def power_int_minus)
  then show ?thesis
    by (simp add: js_times_def to_double_10 to_double_04 overflow_def)
qed

text \<open>
  Three times the double written \<^verbatim>\<open>0.3333333333333333\<close> is below 1 by \<open>2\<^sup>-\<^sup>5\<^sup>4\<close>, half
  the distance between 1 and the double before it: the product of doubles is 1.
\<close>

lemma js_times_3_third: "js_times 3 (3333333333333333 / 10000000000000000) = Finite 1"
proof -
  have "to_double (3 * (6004799503160661 / 18014398509481984)) = 1"
    by (subst to_double_eval [of "- 1"]) (simp_all add: round_even_def power_int_minus)
  then show ?thesis
    by (simp add: js_times_def to_double_3 to_double_third overflow_def)
qed

section \<open>Properties of the ranking\<close>

lemma set_insert_sorted: "set (insert_sorted cmp x l) = insert x (set l)"
  by (induction l) auto

lemma length_insert_sorted: "length (insert_sorted cmp x l) = Suc (length l)"
  by (induction l) auto

lemma length_array_sort: "length (array_sort cmp es) = length es"
  by (induction es) (auto simp: array_sort_def length_insert_sorted)

lemma set_array_sort: "set (array_sort cmp es) = set es"
  by (induction es) (auto simp: array_sort_def set_insert_sorted)

lemma insert_sorted_ranked:
  assumes "sorted_wrt ranked_before l" and "\<forall>y \<in> set l. e_index x < e_index y"
  shows "sorted_wrt ranked_before (insert_sorted compareFn x l)"
  using assms
proof (induction l)
  case Nil
  then show ?case by simp
next
  case (Cons y l)
  show ?case
  proof (cases "compareFn x y \<le> 0")
    case True
    have "ranked_before x z" if "z \<in> set (y # l)" for z
    proof -
      have "e_value z \<le> e_value y"
        using that Cons.prems(1) by (auto simp: ranked_before_def)
      moreover have "e_value y \<le> e_value x"
        using True by (simp add: compareFn_def)
      moreover have "e_index x < e_index z"
        using that Cons.prems(2) by auto
      ultimately show ?thesis by (auto simp: ranked_before_def)
    qed
    with True Cons.prems(1) show ?thesis by simp
  next
    case False
    then have "ranked_before y x" by (simp add: compareFn_def ranked_before_def)
    moreover have "sorted_wrt ranked_before (insert_sorted compareFn x l)"
      using Cons by simp
    ultimately show ?thesis
      using False Cons.prems(1) by (auto simp: set_insert_sorted)
  qed
qed

lemma array_sort_ranked:
  assumes "sorted_wrt (\<lambda>a b. e_index a < e_index b) es"
  shows "sorted_wrt ranked_before (array_sort compareFn es)"
  using assms
proof (induction es)
  case Nil
  then show ?case by (simp add: array_sort_def)
next
  case (Cons x es)
  have "sorted_wrt ranked_before (array_sort compareFn es)"
    using Cons by simp
  moreover have "\<forall>y \<in> set (array_sort compareFn es). e_index x < e_index y"
    using Cons.prems by (simp add: set_array_sort)
  ultimately have "sorted_wrt ranked_before (insert_sorted compareFn x (array_sort compareFn es))"
    by (rule insert_sorted_ranked)
  then show ?case by (simp add: array_sort_def)
qed

lemma valuesAndIndices_ascending:
  "sorted_wrt (\<lambda>a b. e_index a < e_index b) (valuesAndIndices values)"
  by (simp add: valuesAndIndices_def sorted_wrt_map)

lemma length_valuesAndIndices: "length (valuesAndIndices values) = length values"
  by (simp add: valuesAndIndices_def)

lemma sorted_ranked:
  "sorted_wrt ranked_before (array_sort compareFn (valuesAndIndices values))"
  by (rule array_sort_ranked [OF valuesAndIndices_ascending])

text \<open>What the second loop computes, from any point of its run.\<close>

lemma fill_topk_eq:
  assumes "i \<le> topK" and "length tv = topK" and "length ti = topK"
  shows "fill_topk vai topK i tv ti =
           (if i < topK \<and> length vai < topK then Inl TypeError
            else Inr (take i tv @ map e_value (take (topK - i) (drop i vai)),
                      take i ti @ map e_index (take (topK - i) (drop i vai))))"
  using assms
proof (induction vai topK i tv ti rule: fill_topk.induct)
  case (1 vai topK i tv ti)
  show ?case
  proof (cases "i < topK")
    case False
    with "1.prems" show ?thesis by (subst fill_topk.simps) simp
  next
    case lt: True
    show ?thesis
    proof (cases "i < length vai")
      case False
      with lt show ?thesis by (subst fill_topk.simps) simp
    next
      case True
      let ?tv = "tv[i := e_value (vai ! i)]" and ?ti = "ti[i := e_index (vai ! i)]"
      have step: "fill_topk vai topK i tv ti = fill_topk vai topK (i + 1) ?tv ?ti"
        using lt True by (subst fill_topk.simps) simp
      have ih: "fill_topk vai topK (i + 1) ?tv ?ti =
           (if i + 1 < topK \<and> length vai < topK then Inl TypeError
            else Inr (take (i + 1) ?tv @ map e_value (take (topK - (i + 1)) (drop (i + 1) vai)),
                      take (i + 1) ?ti @ map e_index (take (topK - (i + 1)) (drop (i + 1) vai))))"
        using "1.IH" [OF lt True] lt "1.prems" by simp
      have tv: "take (i + 1) ?tv = take i tv @ [e_value (vai ! i)]"
        using lt "1.prems" by (simp add: take_Suc_conv_app_nth)
      have ti: "take (i + 1) ?ti = take i ti @ [e_index (vai ! i)]"
        using lt "1.prems" by (simp add: take_Suc_conv_app_nth)
      have dr: "take (topK - i) (drop i vai) = vai ! i # take (topK - (i + 1)) (drop (i + 1) vai)"
      proof -
        have "drop i vai = vai ! i # drop (Suc i) vai"
          using True by (simp add: Cons_nth_drop_Suc)
        moreover have "topK - i = Suc (topK - (i + 1))"
          using lt by simp
        ultimately show ?thesis by simp
      qed
      show ?thesis
      proof (cases "length vai < topK")
        case True
        then have "i + 1 < topK" using \<open>i < length vai\<close> by simp
        with True lt step ih show ?thesis by simp
      next
        case False
        with step ih tv ti dr show ?thesis by simp
      qed
    qed
  qed
qed

lemma rank_topk_eq:
  "rank_topk values topK =
     (if length values < topK then Inl TypeError
      else Inr (map e_value (take topK (array_sort compareFn (valuesAndIndices values))),
                map e_index (take topK (array_sort compareFn (valuesAndIndices values)))))"
proof -
  have "fill_topk (array_sort compareFn (valuesAndIndices values)) topK 0
          (replicate topK 0) (replicate topK 0) =
        (if 0 < topK \<and> length (array_sort compareFn (valuesAndIndices values)) < topK
         then Inl TypeError
         else Inr (take 0 (replicate topK 0) @ map e_value
                     (take (topK - 0) (drop 0 (array_sort compareFn (valuesAndIndices values)))),
                   take 0 (replicate topK 0) @ map e_index
                     (take (topK - 0) (drop 0 (array_sort compareFn (valuesAndIndices values))))))"
    by (rule fill_topk_eq) simp_all
  then show ?thesis
    by (auto simp: rank_topk_def length_array_sort length_valuesAndIndices)
qed

lemma topClassesAndProbs_entries:
  "topClassesAndProbs env (map e_value es) (map e_index es) =
     map (\<lambda>e. \<lparr>className = IMAGENET_CLASSES env (e_index e), probability = e_value e\<rparr>) es"
  by (rule nth_equalityI) (simp_all add: topClassesAndProbs_def)

lemma ranked_before_value: "ranked_before a b \<Longrightarrow> e_value b \<le> e_value a"
  by (auto simp: ranked_before_def)

lemma ranked_before_tie: "ranked_before a b \<Longrightarrow> e_value a = e_value b \<Longrightarrow> e_index a < e_index b"
  by (auto simp: ranked_before_def)

lemma take_sorted_ranked:
  "sorted_wrt ranked_before (take topK (array_sort compareFn (valuesAndIndices values)))"
  by (rule sorted_wrt_take [OF sorted_ranked])

lemma take_sorted_entry:
  assumes "e \<in> set (take topK (array_sort compareFn (valuesAndIndices values)))"
  shows "e_index e < length values \<and> e_value e = values ! e_index e"
proof -
  have "e \<in> set (valuesAndIndices values)"
    using assms set_array_sort [of compareFn "valuesAndIndices values"]
    by (auto dest: in_set_takeD)
  then show ?thesis by (auto simp: valuesAndIndices_def)
qed

lemma invoke_Inr: "invoke cb r = (ev, Inr r') \<Longrightarrow> r' = r"
  by (cases cb) (auto simp: invoke_def split: if_splits)

section \<open>The ranking is sorted and stable\<close>

text \<open>
  Handed \<open>topK\<close> and logits of at least \<open>topK\<close> entries, \<open>getTopKClasses\<close> returns
  \<open>topK\<close> predictions in order of non-increasing probability (the callback being a
  function or absent); handed a larger \<open>topK\<close> it throws.
\<close>

lemma getTopKClasses_sorted:
  assumes "\<forall>n. cb \<noteq> JSNumber (Suc n)"
  shows "(topK \<le> length (vals logits) \<longrightarrow>
            (\<exists>r. snd (getTopKClasses env logits topK cb) = Inr r \<and> length r = topK
                 \<and> sorted_wrt (\<lambda>a b. probability b \<le> probability a) r))
       \<and> (length (vals logits) < topK \<longrightarrow>
            snd (getTopKClasses env logits topK cb) = Inl TypeError)"
proof -
  let ?es = "take topK (array_sort compareFn (valuesAndIndices (vals logits)))"
  let ?r = "map (\<lambda>e. \<lparr>className = IMAGENET_CLASSES env (e_index e), probability = e_value e\<rparr>) ?es"
  have cb: "snd (invoke cb r) = Inr r" for r
    using assms by (cases cb) (auto simp: invoke_def gr0_conv_Suc)
  have fail: "snd (getTopKClasses env logits topK cb) = Inl TypeError"
    if "length (vals logits) < topK"
    using that by (simp add: getTopKClasses_def rank_topk_eq)
  have ok: "snd (getTopKClasses env logits topK cb) = Inr ?r" if "topK \<le> length (vals logits)"
    using that by (simp add: getTopKClasses_def rank_topk_eq topClassesAndProbs_entries cb)
  have len: "length ?r = topK" if "topK \<le> length (vals logits)"
    using that by (simp add: length_array_sort length_valuesAndIndices)
  have "sorted_wrt (\<lambda>a b. e_value b \<le> e_value a) ?es"
    by (rule sorted_wrt_mono_rel [OF _ take_sorted_ranked]) (simp add: ranked_before_value)
  then have srt: "sorted_wrt (\<lambda>a b. probability b \<le> probability a) ?r"
    by (simp add: sorted_wrt_map)
  from fail ok len srt show ?thesis by auto
qed

text \<open>
  C5. Two predictions of the returned ranking that carry the same probability stand in
  the order of their class indices, the lower index first: \<open>topkIndices\<close> are the class
  indices behind the returned names and probabilities.
\<close>

theorem topk_ties_by_index:
  assumes "rank_topk (vals logits) topK = Inr (topkValues, topkIndices)"
    and "getTopKClasses env logits topK cb = (ev, Inr r)"
    and "i < j" and "j < length r"
    and "probability (r ! i) = probability (r ! j)"
  shows "topkIndices ! i < topkIndices ! j
       \<and> className (r ! i) = IMAGENET_CLASSES env (topkIndices ! i)
       \<and> className (r ! j) = IMAGENET_CLASSES env (topkIndices ! j)
       \<and> probability (r ! i) = vals logits ! (topkIndices ! i)
       \<and> probability (r ! j) = vals logits ! (topkIndices ! j)"
proof -
  let ?es = "take topK (array_sort compareFn (valuesAndIndices (vals logits)))"
  have le: "topK \<le> length (vals logits)"
    and tv: "topkValues = map e_value ?es" and ti: "topkIndices = map e_index ?es"
    using assms(1) by (auto simp: rank_topk_eq split: if_splits)
  have "invoke cb (topClassesAndProbs env topkValues topkIndices) = (ev, Inr r)"
    using assms(1,2) by (simp add: getTopKClasses_def)
  then have r: "r = map (\<lambda>e. \<lparr>className = IMAGENET_CLASSES env (e_index e), probability = e_value e\<rparr>) ?es"
    using invoke_Inr tv ti topClassesAndProbs_entries by metis
  have len: "length ?es = length r" by (simp add: r)
  have j: "j < length ?es" and i: "i < length ?es"
    using assms(3,4) len by simp_all
  have "ranked_before (?es ! i) (?es ! j)"
    using take_sorted_ranked [of topK "vals logits"] assms(3) j
    by (simp add: sorted_wrt_iff_nth_less)
  moreover have "e_value (?es ! i) = e_value (?es ! j)"
    using assms(5) i j unfolding r by simp
  ultimately have "e_index (?es ! i) < e_index (?es ! j)"
    by (rule ranked_before_tie)
  moreover have "e_value (?es ! i) = vals logits ! e_index (?es ! i)"
    using take_sorted_entry [of "?es ! i" topK "vals logits"] i nth_mem by blast
  moreover have "e_value (?es ! j) = vals logits ! e_index (?es ! j)"
    using take_sorted_entry [of "?es ! j" topK "vals logits"] j nth_mem by blast
  ultimately show ?thesis
    using i j unfolding r ti by simp
qed

theorem topk_ties_by_index_witness:
  "rank_topk (vals \<lparr>shape = [1, 3], vals = [1 / 4, 1 / 2, 1 / 4]\<rparr>) 3 = Inr ([1 / 2, 1 / 4, 1 / 4], [1, 0, 2])
   \<and> getTopKClasses example_env \<lparr>shape = [1, 3], vals = [1 / 4, 1 / 2, 1 / 4]\<rparr> 3 JSNull =
       ([], Inr [\<lparr>className = Some ''class'', probability = 1 / 2\<rparr>,
                 \<lparr>className = Some ''class'', probability = 1 / 4\<rparr>,
                 \<lparr>className = Some ''class'', probability = 1 / 4\<rparr>])
   \<and> [1, 0, 2 :: nat] ! 1 < [1, 0, 2] ! 2"
  using topk_ties_by_index [of "\<lparr>shape = [1, 3], vals = [1 / 4, 1 / 2, 1 / 4]\<rparr>" 3
      "[1 / 2, 1 / 4, 1 / 4]" "[1, 0, 2]" example_env JSNull "[]"
      "[\<lparr>className = Some ''class'', probability = 1 / 2\<rparr>,
        \<lparr>className = Some ''class'', probability = 1 / 4\<rparr>,
        \<lparr>className = Some ''class'', probability = 1 / 4\<rparr>]" 1 2]
  by (simp add: getTopKClasses_def rank_topk_eq valuesAndIndices_def array_sort_def compareFn_def
      upt_rec topClassesAndProbs_def invoke_def example_env_def)

section \<open>Claims about the configuration\<close>

text \<open>
  C10. An option that is present with the value 0 is replaced by its default: 20
  epochs, 100 hidden units, 2 classes, learning rate 0.0001, batch fraction 0.4.
\<close>

theorem constructor_zero_option:
  "(opt_epochs opts = Some 0 \<longrightarrow> epochs (constructor env v opts) = 20)
   \<and> (opt_hiddenUnits opts = Some 0 \<longrightarrow> hiddenUnits (constructor env v opts) = 100)
   \<and> (opt_numClasses opts = Some 0 \<longrightarrow> numClasses (constructor env v opts) = 2)
   \<and> (opt_learningRate opts = Some 0 \<longrightarrow> learningRate (constructor env v opts) = 0.0001)
   \<and> (opt_batchSize opts = Some 0 \<longrightarrow> batchSize (constructor env v opts) = 0.4)"
  by (simp add: constructor_def js_or_def DEFAULTS_epochs_def DEFAULTS_hiddenUnits_def
      DEFAULTS_numClasses_def DEFAULTS_learningRate_def DEFAULTS_batchSize_def)

theorem constructor_zero_option_witness:
  "opt_numClasses zero_options = Some 0
   \<and> numClasses (constructor example_env None zero_options) = 2
   \<and> epochs (constructor example_env None zero_options) = 20
   \<and> hiddenUnits (constructor example_env None zero_options) = 100
   \<and> learningRate (constructor example_env None zero_options) = 0.0001
   \<and> batchSize (constructor example_env None zero_options) = 0.4"
  using constructor_zero_option [of zero_options example_env None]
  by (simp add: zero_options_def)

section \<open>Properties of the dataset and of training\<close>

lemma imgToTensor_batch:
  assumes "imgToTensor env i = Inr t"
  shows "shape t \<noteq> [] \<and> hd (shape t) = 1"
  using assms
  by (auto simp: imgToTensor_def Let_def expandDims0_def toFloat_def div_scalar_def sub_scalar_def
      split: sum.splits)

lemma model_predict_shape:
  assumes "model_predict m x = Inr p"
  shows "shape p = hd (shape x) # outputShape m"
  using assms by (auto simp: model_predict_def split: if_splits)

lemma oneHot_shape:
  assumes "oneHot label depth = Inr y"
  shows "shape y = [1, depth]"
  using assms by (auto simp: oneHot_def split: if_splits)

lemma addImage_numClasses: "numClasses (fst (addImage env st label i)) = numClasses st"
  by (auto simp: addImage_def Let_def split: sum.splits option.splits)

lemma addImage_dataset_inv:
  assumes "dataset_inv st n" and "addImage env st label i = (st', r)"
  shows "dataset_inv st' (if r = Inr True then n + 1 else n)"
proof (cases "modelLoaded st")
  case False
  with assms show ?thesis by (auto simp: addImage_def)
next
  case loaded: True
  show ?thesis
  proof (cases "imgToTensor env (if i \<noteq> None then i else video st)")
    case (Inl e)
    with assms loaded show ?thesis by (auto simp: addImage_def)
  next
    case (Inr processedImg)
    note img = this
    show ?thesis
    proof (cases "mobilenetModified st")
      case None
      with assms loaded img show ?thesis by (auto simp: addImage_def)
    next
      case (Some net)
      note net = this
      show ?thesis
      proof (cases "model_predict net processedImg")
        case (Inl e)
        with assms loaded img net show ?thesis by (auto simp: addImage_def)
      next
        case (Inr prediction)
        note pr = this
        have prs: "shape prediction = 1 # outputShape net"
          using model_predict_shape [OF pr] imgToTensor_batch [OF img] by simp
        show ?thesis
        proof (cases "oneHot label (numClasses st)")
          case (Inl e)
          with assms loaded img net pr show ?thesis by (auto simp: addImage_def)
        next
          case (Inr y)
          note y = this
          have ys: "shape y = [1, numClasses st]" by (rule oneHot_shape [OF y])
          show ?thesis
          proof (cases "xs st")
            case None
            with assms loaded img net pr y prs ys show ?thesis
              by (auto simp: addImage_def dataset_inv_def)
          next
            case (Some oldX)
            note oldX = this
            from assms(1) oldX obtain oldY where oldY: "ys st = Some oldY"
              and shY: "shape oldY = [n, numClasses st]"
              and shX: "shape oldX \<noteq> []" "hd (shape oldX) = n" and n: "0 < n"
              and flag: "hasAnyTrainedClass st"
              by (auto simp: dataset_inv_def)
            show ?thesis
            proof (cases "concat0 oldX prediction")
              case (Inl e)
              with assms loaded img net pr y oldX show ?thesis by (auto simp: addImage_def)
            next
              case (Inr newX)
              have newX: "shape newX = (n + 1) # tl (shape oldX)"
                using Inr shX prs by (auto simp: concat0_def split: if_splits)
              have cy: "concat0 oldY y = Inr \<lparr>shape = [n + 1, numClasses st], vals = vals oldY @ vals y\<rparr>"
                using shY ys by (simp add: concat0_def)
              have "addImage env st label i =
                      (st\<lparr>xs := Some newX,
                          ys := Some \<lparr>shape = [n + 1, numClasses st], vals = vals oldY @ vals y\<rparr>\<rparr>,
                       Inr True)"
                using loaded img net pr y oldX Inr oldY cy by (simp add: addImage_def)
              with assms(2) newX flag show ?thesis
                by (auto simp: dataset_inv_def)
            qed
          qed
        qed
      qed
    qed
  qed
qed

lemma predict_dataset:
  assumes "predict env st a b c = (st', ev)"
  shows "xs st' = xs st \<and> ys st' = ys st \<and> hasAnyTrainedClass st' = hasAnyTrainedClass st
       \<and> numClasses st' = numClasses st \<and> customModel st' = customModel st"
  using assms
  by (auto simp: predict_def Let_def split: input.splits element.splits sum.splits if_splits)

lemma replay_dataset:
  assumes "replay env st q = (st', ev)"
  shows "xs st' = xs st \<and> ys st' = ys st \<and> hasAnyTrainedClass st' = hasAnyTrainedClass st
       \<and> numClasses st' = numClasses st \<and> customModel st' = customModel st"
  using assms
proof (induction q arbitrary: st st' ev)
  case Nil
  then show ?case by simp
next
  case (Cons i q)
  obtain st1 ev1 where p: "predict env st (replay_input i) (JSNumber (q_num i)) (q_callback i) = (st1, ev1)"
    by (cases "predict env st (replay_input i) (JSNumber (q_num i)) (q_callback i)")
  obtain st2 ev2 where r: "replay env st1 q = (st2, ev2)"
    by (cases "replay env st1 q")
  from Cons.prems p r have "st' = st2" by simp
  with Cons.IH [OF r] predict_dataset [OF p] show ?case by simp
qed

lemma load_dataset:
  assumes "load env st m l = (st', ev)"
  shows "xs st' = xs st \<and> ys st' = ys st \<and> hasAnyTrainedClass st' = hasAnyTrainedClass st
       \<and> numClasses st' = numClasses st \<and> customModel st' = customModel st"
proof (cases "loadModel env st m l")
  case (Pair st1 res)
  have st1: "st1 = st\<lparr>mobilenet := Some m\<rparr>"
    using Pair by (auto simp: loadModel_def Let_def split: option.splits sum.splits)
  show ?thesis
  proof (cases res)
    case (Inl e)
    with Pair assms st1 show ?thesis by (auto simp: load_def)
  next
    case (Inr net)
    obtain st2 ev2 where r: "replay env (st1\<lparr>modelLoaded := True, mobilenetModified := Some net\<rparr>)
        (waitingPredictions st1) = (st2, ev2)"
      by (cases "replay env (st1\<lparr>modelLoaded := True, mobilenetModified := Some net\<rparr>) (waitingPredictions st1)")
    with Pair Inr assms have "st' = st2" by (simp add: load_def onModelLoaded_def)
    with replay_dataset [OF r] st1 show ?thesis by simp
  qed
qed

lemma train_dataset:
  assumes "train env st = (st', r)"
  shows "xs st' = xs st \<and> ys st' = ys st \<and> hasAnyTrainedClass st' = hasAnyTrainedClass st
       \<and> numClasses st' = numClasses st"
  using assms
  by (auto simp: train_def Let_def split: if_splits option.splits list.splits)

lemma dataset_inv_cong:
  assumes "dataset_inv st n"
    and "xs st' = xs st \<and> ys st' = ys st \<and> hasAnyTrainedClass st' = hasAnyTrainedClass st
         \<and> numClasses st' = numClasses st"
  shows "dataset_inv st' n"
  using assms by (auto simp: dataset_inv_def split: option.splits)

lemma step_dataset_inv:
  assumes "dataset_inv st n"
  shows "dataset_inv (step env st c) (n + appended env st [c])"
proof (cases c)
  case (Load m l)
  obtain st' ev where "load env st m l = (st', ev)" by (cases "load env st m l")
  with Load load_dataset [of env st m l st' ev] dataset_inv_cong [OF assms, of st'] show ?thesis by simp
next
  case (Predict a b d)
  obtain st' ev where "predict env st a b d = (st', ev)" by (cases "predict env st a b d")
  with Predict predict_dataset [of env st a b d st' ev] dataset_inv_cong [OF assms, of st'] show ?thesis by simp
next
  case (AddImage label i)
  obtain st' r where a: "addImage env st label i = (st', r)" by (cases "addImage env st label i")
  with AddImage addImage_dataset_inv [OF assms a] show ?thesis by (simp split: if_splits)
next
  case Train
  obtain st' r where "train env st = (st', r)" by (cases "train env st")
  with Train train_dataset [of env st st' r] dataset_inv_cong [OF assms, of st'] show ?thesis by simp
qed

lemma appended_Cons: "appended env st (c # cs) = appended env st [c] + appended env (step env st c) cs"
  by (cases c) simp_all

lemma run_dataset_inv:
  assumes "dataset_inv st n"
  shows "dataset_inv (run env st cs) (n + appended env st cs)"
  using assms
proof (induction cs arbitrary: st n)
  case Nil
  then show ?case by simp
next
  case (Cons c cs)
  have "dataset_inv (run env (step env st c) cs) (n + appended env st [c] + appended env (step env st c) cs)"
    by (rule Cons.IH [OF step_dataset_inv [OF Cons.prems]])
  then show ?case by (simp add: appended_Cons [of env st c cs] add.assoc)
qed

lemma constructor_dataset_inv: "dataset_inv (constructor env v opts) 0"
  by (simp add: dataset_inv_def constructor_def)




lemmas example_defs = example_env_def example_image_def example_mobilenet_def example_layer_def
  no_options_def zero_options_def

lemmas eval_defs = load_def loadModel_def constructor_def onModelLoaded_def js_or_def
    addImage_def imgToTensor_def fromPixels_def cropImage_def slice_def whole_def
    expandDims0_def toFloat_def div_scalar_def sub_scalar_def Let_def model_predict_def
    oneHot_def concat0_def train_def sequential_def fit_def rows_def
    DEFAULTS_epochs_def DEFAULTS_hiddenUnits_def DEFAULTS_numClasses_def
    DEFAULTS_learningRate_def DEFAULTS_batchSize_def

lemma predict_config: "config (fst (predict env st a b c)) = config st"
  by (auto simp: config_def predict_def Let_def split: input.splits element.splits sum.splits if_splits)

lemma replay_config: "config (fst (replay env st q)) = config st"
proof (induction q arbitrary: st)
  case Nil
  then show ?case by simp
next
  case (Cons i q)
  have "fst (replay env st (i # q)) =
        fst (replay env (fst (predict env st (replay_input i) (JSNumber (q_num i)) (q_callback i))) q)"
    by (simp add: Let_def split: prod.splits)
  with Cons.IH predict_config show ?case by simp
qed

lemma load_config: "config (fst (load env st m l)) = config st"
proof -
  have st1: "fst (loadModel env st m l) = st\<lparr>mobilenet := Some m\<rparr>"
    by (auto simp: loadModel_def Let_def split: option.splits sum.splits)
  have "config (fst (onModelLoaded env st1 net)) = config st1" for st1 net
  proof -
    obtain st2 ev where r:
      "replay env (st1\<lparr>modelLoaded := True, mobilenetModified := Some net\<rparr>) (waitingPredictions st1) = (st2, ev)"
      by (cases "replay env (st1\<lparr>modelLoaded := True, mobilenetModified := Some net\<rparr>) (waitingPredictions st1)")
    with replay_config [of env "st1\<lparr>modelLoaded := True, mobilenetModified := Some net\<rparr>" "waitingPredictions st1"]
    show ?thesis by (simp add: onModelLoaded_def config_def)
  qed
  then show ?thesis
    using st1 by (cases "loadModel env st m l") (auto simp: load_def config_def split: sum.splits)
qed

lemma addImage_config: "config (fst (addImage env st label i)) = config st"
  by (auto simp: config_def addImage_def Let_def split: sum.splits option.splits)

lemma train_config: "config (fst (train env st)) = config st"
  by (auto simp: config_def train_def Let_def split: option.splits list.splits)

lemma step_config: "config (step env st c) = config st"
  by (cases c) (simp_all add: load_config predict_config addImage_config train_config)

lemma run_config: "config (run env st cs) = config st"
  by (induction cs arbitrary: st) (simp_all add: step_config)

lemma run_constructor_inv:
  "dataset_inv (run env (constructor env v opts) cs) (appended env (constructor env v opts) cs)"
  using run_dataset_inv [OF constructor_dataset_inv [of env v opts], of env cs] by simp



text \<open>
  C8. \<open>train\<close> on a classifier to which no example has been added fails with the error
  \<open>Add some examples before training!\<close> and returns the classifier as it was, the
  head included.
\<close>

theorem train_empty_dataset:
  assumes "st = run env (constructor env v opts) cs"
    and "appended env (constructor env v opts) cs = 0"
  shows "train env st = (st, Inl (JSError ''Add some examples before training!''))"
proof -
  have "dataset_inv st 0"
    using run_constructor_inv [of env v opts cs] assms by simp
  then have "\<not> hasAnyTrainedClass st" by (simp add: dataset_inv_def)
  then show ?thesis by (simp add: train_def)
qed

theorem train_empty_dataset_witness:
  "appended example_env (constructor example_env None no_options)
     [Load example_mobilenet example_layer, Predict (Elem (HTMLImageElement example_image)) JSNull JSNull, Train] = 0
   \<and> train example_env (run example_env (constructor example_env None no_options)
        [Load example_mobilenet example_layer, Predict (Elem (HTMLImageElement example_image)) JSNull JSNull, Train]) =
       (run example_env (constructor example_env None no_options)
          [Load example_mobilenet example_layer, Predict (Elem (HTMLImageElement example_image)) JSNull JSNull, Train],
        Inl (JSError ''Add some examples before training!''))"
  using train_empty_dataset [of "run example_env (constructor example_env None no_options)
        [Load example_mobilenet example_layer, Predict (Elem (HTMLImageElement example_image)) JSNull JSNull, Train]"
      example_env None no_options
      "[Load example_mobilenet example_layer, Predict (Elem (HTMLImageElement example_image)) JSNull JSNull, Train]"]
  by (simp add: example_defs eval_defs)

text \<open>
  C6. The batch fraction is the option \<open>batchSize\<close>, 0.4 by default. With \<open>n\<close> examples
  in the dataset \<open>train\<close> computes the batch size \<^verbatim>\<open>Math.floor(n * batchSize)\<close>, the
  product being the one of doubles; if that is not above 0 (it is 0, for a fraction that
  is not negative) \<open>train\<close> fails, otherwise it fits the new head with this batch size.
  One example at 0.4 gives 0 and fails; ten examples at 0.4 give the batch size 4.
\<close>

theorem train_batch_size:
  assumes "st = run env (constructor env v opts) cs"
    and "n = appended env (constructor env v opts) cs"
    and "0 < n"
  shows "batchSize st = js_or (opt_batchSize opts) 0.4
       \<and> (\<not> greater_zero (Math_floor (js_times (real n) (batchSize st))) \<longrightarrow>
            snd (train env st) =
              Inl (JSError ''Batch size is 0 or NaN. Please choose a non-zero fraction.''))
       \<and> (greater_zero (Math_floor (js_times (real n) (batchSize st))) \<longrightarrow>
            snd (train env st) = Inr ()
            \<and> (\<exists>x. xs st = Some x
                 \<and> customModel (fst (train env st)) =
                     Some (fit env (sequential env (hiddenUnits st) (numClasses st)) x (ys st)
                            (Math_floor (js_times (real n) (batchSize st))) (epochs st) (learningRate st))))
       \<and> (n = 1 \<and> batchSize st = 0.4 \<longrightarrow>
            Math_floor (js_times (real n) (batchSize st)) = Finite 0
            \<and> snd (train env st) =
                Inl (JSError ''Batch size is 0 or NaN. Please choose a non-zero fraction.''))
       \<and> (n = 10 \<and> batchSize st = 0.4 \<longrightarrow>
            Math_floor (js_times (real n) (batchSize st)) = Finite 4 \<and> snd (train env st) = Inr ())"
proof -
  have inv: "dataset_inv st n"
    using run_dataset_inv [OF constructor_dataset_inv, where env = env and cs = cs] assms(1,2) by simp
  then obtain x where x: "xs st = Some x" and sh0: "shape x \<noteq> []" "hd (shape x) = n"
    and flag: "hasAnyTrainedClass st"
    using assms(3) by (cases "xs st") (auto simp: dataset_inv_def)
  from sh0 obtain dims where sh: "shape x = n # dims"
    by (cases "shape x") auto
  have "config st = config (constructor env v opts)"
    using assms(1) run_config by simp
  then have bs: "batchSize st = js_or (opt_batchSize opts) 0.4"
    by (simp add: config_def constructor_def DEFAULTS_batchSize_def)
  let ?msg = "JSError ''Batch size is 0 or NaN. Please choose a non-zero fraction.''"
  let ?b = "Math_floor (js_times (real n) (batchSize st))"
  have tr: "train env st =
      (if \<not> greater_zero ?b
       then (st\<lparr>isPredicting := False,
                customModel := Some (sequential env (hiddenUnits st) (numClasses st))\<rparr>, Inl ?msg)
       else (st\<lparr>isPredicting := False,
                customModel := Some (fit env (sequential env (hiddenUnits st) (numClasses st)) x (ys st)
                            ?b (epochs st) (learningRate st))\<rparr>, Inr ()))"
    using x flag sh by (simp add: train_def Let_def)
  have zero: "snd (train env st) = Inl ?msg" if "\<not> greater_zero ?b"
    using that tr by simp
  have pos: "snd (train env st) = Inr ()
            \<and> (\<exists>x. xs st = Some x
                 \<and> customModel (fst (train env st)) =
                     Some (fit env (sequential env (hiddenUnits st) (numClasses st)) x (ys st)
                            ?b (epochs st) (learningRate st)))"
    if "greater_zero ?b"
    using that tr x by simp
  have one: "?b = Finite 0" if "n = 1 \<and> batchSize st = 0.4"
  proof -
    from that have n: "n = 1" and b: "batchSize st = 0.4" by blast+
    have "js_times (real (1::nat)) 0.4 = Finite (3602879701896397 / 9007199254740992)"
      using js_times_1_04 by simp
    then show ?thesis unfolding n b by simp
  qed
  have ten: "?b = Finite 4" if "n = 10 \<and> batchSize st = 0.4"
  proof -
    from that have n: "n = 10" and b: "batchSize st = 0.4" by blast+
    have "js_times (real (10::nat)) 0.4 = Finite 4"
      using js_times_10_04 by simp
    then show ?thesis unfolding n b by simp
  qed
  have one': "snd (train env st) = Inl ?msg" if "n = 1 \<and> batchSize st = 0.4"
    using one [OF that] zero by simp
  have ten': "snd (train env st) = Inr ()" if "n = 10 \<and> batchSize st = 0.4"
    using ten [OF that] pos by simp
  from bs zero pos one ten one' ten' show ?thesis by blast
qed

theorem train_batch_size_witness:
  "appended example_env (constructor example_env None no_options) one_example = 1
   \<and> batchSize (run example_env (constructor example_env None no_options) one_example) = 0.4
   \<and> Math_floor (js_times (real (1::nat))
         (batchSize (run example_env (constructor example_env None no_options) one_example))) = Finite 0
   \<and> snd (train example_env (run example_env (constructor example_env None no_options) one_example)) =
       Inl (JSError ''Batch size is 0 or NaN. Please choose a non-zero fraction.'')
   \<and> appended example_env (constructor example_env None no_options) ten_examples = 10
   \<and> batchSize (run example_env (constructor example_env None no_options) ten_examples) = 0.4
   \<and> Math_floor (js_times (real (10::nat))
         (batchSize (run example_env (constructor example_env None no_options) ten_examples))) = Finite 4
   \<and> snd (train example_env (run example_env (constructor example_env None no_options) ten_examples)) = Inr ()
   \<and> appended example_env (constructor example_env None third_options) three_examples = 3
   \<and> batchSize (run example_env (constructor example_env None third_options) three_examples)
       = 0.3333333333333333
   \<and> Math_floor (js_times (real (3::nat))
         (batchSize (run example_env (constructor example_env None third_options) three_examples))) = Finite 1
   \<and> snd (train example_env (run example_env (constructor example_env None third_options) three_examples))
       = Inr ()"
proof -
  let ?C = "constructor example_env None no_options"
  let ?D = "constructor example_env None third_options"
  have a1: "1 = appended example_env ?C one_example"
    by (simp add: example_defs eval_defs one_example_def)
  have a10: "10 = appended example_env ?C ten_examples"
    by (simp add: example_defs eval_defs ten_examples_def)
  have a3: "3 = appended example_env ?D three_examples"
    by (simp add: example_defs eval_defs three_examples_def third_options_def)
  have b1: "batchSize (run example_env ?C one_example) = 0.4"
    by (simp add: example_defs eval_defs one_example_def)
  have b10: "batchSize (run example_env ?C ten_examples) = 0.4"
    by (simp add: example_defs eval_defs ten_examples_def)
  have b3: "batchSize (run example_env ?D three_examples) = 0.3333333333333333"
    by (simp add: example_defs eval_defs three_examples_def third_options_def)
  have p1: "0 < (1::nat)" and p10: "0 < (10::nat)" and p3: "0 < (3::nat)" by simp_all
  have f: "Math_floor (js_times (real (1::nat)) (batchSize (run example_env ?C one_example))) = Finite 0
       \<and> snd (train example_env (run example_env ?C one_example)) =
       Inl (JSError ''Batch size is 0 or NaN. Please choose a non-zero fraction.'')"
    using train_batch_size [OF refl a1 p1] b1 by blast
  have s: "Math_floor (js_times (real (10::nat)) (batchSize (run example_env ?C ten_examples))) = Finite 4
       \<and> snd (train example_env (run example_env ?C ten_examples)) = Inr ()"
    using train_batch_size [OF refl a10 p10] b10 by blast
  have m3: "Math_floor (js_times (real (3::nat)) (batchSize (run example_env ?D three_examples))) = Finite 1"
    unfolding b3 using js_times_3_third by simp
  then have g3: "greater_zero (Math_floor (js_times (real (3::nat)) (batchSize (run example_env ?D three_examples))))"
    by simp
  have t: "snd (train example_env (run example_env ?D three_examples)) = Inr ()"
    using train_batch_size [OF refl a3 p3] g3 by blast
  show ?thesis
    using a1 [symmetric] a10 [symmetric] a3 [symmetric] b1 b10 b3 f s m3 t by simp
qed

section \<open>Properties of the preprocessing\<close>

lemma length_tabulate: "length (tabulate n f) = n"
  by (simp add: tabulate_def)

lemma nth_tabulate: "k < n \<Longrightarrow> tabulate n f ! k = f k"
  by (simp add: tabulate_def)

lemma index_bound:
  fixes a b c :: nat
  assumes "a < h" and "b < w" and "c < 3"
  shows "(a * w + b) * 3 + c < h * w * 3"
proof -
  have "a * w + b < a * w + w" using assms(2) by simp
  also have "\<dots> = (a + 1) * w" by simp
  also have "\<dots> \<le> h * w" using assms(1) by (intro mult_le_mono1) simp
  finally have "a * w + b + 1 \<le> h * w" by simp
  then have "(a * w + b + 1) * 3 \<le> h * w * 3" by simp
  with assms(3) show ?thesis by simp
qed

lemma index_split:
  fixes r c ch s :: nat
  assumes "c < s" and "ch < 3"
  shows "((r * s + c) * 3 + ch) div (s * 3) = r"
    and "(((r * s + c) * 3 + ch) div 3) mod s = c"
    and "((r * s + c) * 3 + ch) mod 3 = ch"
proof -
  have d3: "((r * s + c) * 3 + ch) div 3 = r * s + c" using assms(2) by simp
  show "(((r * s + c) * 3 + ch) div 3) mod s = c" unfolding d3 using assms(1) by simp
  have "((r * s + c) * 3 + ch) mod 3 = ch mod 3" by (rule mod_mult_self3)
  then show "((r * s + c) * 3 + ch) mod 3 = ch" using assms(2) by simp
  have "((r * s + c) * 3 + ch) div (s * 3) = ((r * s + c) * 3 + ch) div (3 * s)"
    by (simp only: mult.commute [of s 3])
  also have "\<dots> = (((r * s + c) * 3 + ch) div 3) div s"
    by (rule div_mult2_eq)
  also have "\<dots> = r" unfolding d3 using assms(1) by simp
  finally show "((r * s + c) * 3 + ch) div (s * 3) = r" .
qed

lemma half_difference:
  fixes h s :: nat
  assumes "s \<le> h"
  shows "real h / 2 - real s / 2 = real (h - s) / 2"
    and "0 \<le> real h / 2 - real s / 2"
    and "real h / 2 - real s / 2 + real s \<le> real h"
    and "whole (real h / 2 - real s / 2) \<longleftrightarrow> even (h - s)"
    and "even (h - s) \<Longrightarrow> nat \<lfloor>real h / 2 - real s / 2\<rfloor> = (h - s) div 2"
proof -
  show eq: "real h / 2 - real s / 2 = real (h - s) / 2"
    using assms by (simp add: of_nat_diff diff_divide_distrib)
  show "0 \<le> real h / 2 - real s / 2" using assms by simp
  show "real h / 2 - real s / 2 + real s \<le> real h" using assms by (simp add: field_simps)
  have ev: "real (h - s) / 2 = real ((h - s) div 2)" if "even (h - s)"
  proof -
    from that obtain k where k: "h - s = 2 * k" by (rule evenE)
    show ?thesis unfolding k by simp
  qed
  show "nat \<lfloor>real h / 2 - real s / 2\<rfloor> = (h - s) div 2" if "even (h - s)"
    using ev [OF that] by (simp add: eq)
  show "whole (real h / 2 - real s / 2) \<longleftrightarrow> even (h - s)"
  proof
    assume "even (h - s)"
    then show "whole (real h / 2 - real s / 2)"
      using ev by (simp add: eq whole_def)
  next
    assume w: "whole (real h / 2 - real s / 2)"
    then have "real_of_int \<lfloor>real (h - s) / 2\<rfloor> * 2 = real (h - s)"
      by (simp add: whole_def eq)
    then have "\<lfloor>real (h - s) / 2\<rfloor> * 2 = int (h - s)"
      by (metis of_int_eq_iff of_int_mult of_int_numeral of_int_of_nat_eq)
    then have "even (int (h - s))" by (metis dvd_triv_right)
    then show "even (h - s)" by simp
  qed
qed

lemma whole_zero: "whole 0"
  by (simp add: whole_def)

lemma cropImage_rank3:
  fixes h w :: nat
  defines "s \<equiv> min h w"
  assumes "shape img = [h, w, 3]"
  shows "cropImage env img =
     Inr \<lparr>shape = [s, s, 3],
          vals =
            (if even (h - s) \<and> even (w - s)
             then tabulate (s * s * 3)
                    (\<lambda>k. vals img ! slice_source [h, w, 3] ((h - s) div 2) ((w - s) div 2) 0 [s, s, 3] k)
             else tabulate (s * s * 3)
                    (slice_kernel env img [real h / 2 - real s / 2, real w / 2 - real s / 2, 0] [s, s, 3]))\<rparr>"
proof -
  have sh: "s \<le> h" and sw: "s \<le> w" by (simp_all add: s_def)
  note hh = half_difference [OF sh] and hw = half_difference [OF sw]
  have "nat \<lfloor>0::real\<rfloor> = 0" by simp
  show ?thesis
    using hh(2,3,4,5) hw(2,3,4,5)
    by (simp add: cropImage_def slice_def assms(2) s_def [symmetric] whole_zero Let_def mult.assoc)
qed

lemma imgToTensor_Some:
  fixes i :: image
  defines "s \<equiv> min (height i) (width i)"
  shows "\<exists>px c. fromPixels (Some i) = Inr px \<and> shape px = [height i, width i, 3]
           \<and> cropImage env px = Inr c \<and> shape c = [s, s, 3] \<and> length (vals c) = s * s * 3
           \<and> imgToTensor env (Some i) =
               Inr \<lparr>shape = [1, s, s, 3], vals = map (\<lambda>x. x / 127 - 1) (vals c)\<rparr>"
proof -
  let ?px = "\<lparr>shape = [height i, width i, 3],
               vals = tabulate (height i * width i * 3) (\<lambda>k. real (pixel i k))\<rparr>"
  have px: "fromPixels (Some i) = Inr ?px" by (simp add: fromPixels_def)
  obtain c where c: "cropImage env ?px = Inr c" and sc: "shape c = [s, s, 3]"
    and lc: "length (vals c) = s * s * 3"
    using cropImage_rank3 [of ?px "height i" "width i" env]
    by (auto simp: s_def length_tabulate)
  have "imgToTensor env (Some i) = Inr \<lparr>shape = [1, s, s, 3], vals = map (\<lambda>x. x / 127 - 1) (vals c)\<rparr>"
    using px c sc
    by (simp add: imgToTensor_def expandDims0_def toFloat_def div_scalar_def sub_scalar_def comp_def)
  with px c sc lc show ?thesis by auto
qed

lemma predict_batched_Some:
  "\<exists>px r. fromPixels (Some i) = Inr px \<and> shape px = [height i, width i, 3]
      \<and> resizeBilinear env px n n = Inr r \<and> shape r = [n, n, 3] \<and> length (vals r) = n * n * 3
      \<and> predict_batched env n (Some i) =
           Inr \<lparr>shape = [1, n, n, 3], vals = map (\<lambda>x. (x - 127.5) / 127.5) (vals r)\<rparr>"
  by (simp add: predict_batched_def fromPixels_def toFloat_def resizeBilinear_def reshape_def
      sub_scalar_def div_scalar_def length_tabulate comp_def)

lemma slice_source_at:
  fixes r col ch s :: nat
  assumes "col < s" and "ch < 3"
  shows "slice_source [h, w, 3] b0 b1 0 [s, s, 3] ((r * s + col) * 3 + ch) =
           ((b0 + r) * w + (b1 + col)) * 3 + ch"
  using index_split [OF assms, of r] by (simp add: slice_source_def)

lemma tabulate_eval: "tabulate 12 f = [f 0, f 1, f 2, f 3, f 4, f 5, f 6, f 7, f 8, f 9, f 10, f 11]"
  by (simp add: tabulate_def upt_rec eval_nat_numeral)

text \<open>
  C9, as the code has it. \<open>imgToTensor\<close> reads the pixels as a tensor of shape
  \<open>[H, W, 3]\<close>, crops the square of side \<open>S = min(H, W)\<close> at the origin
  \<open>((H - S) / 2, (W - S) / 2)\<close>, adds the batch dimension and maps each entry \<open>x\<close> to
  \<open>x / 127 - 1\<close>. It does not resize: the result has shape \<open>[1, S, S, 3]\<close>. When the
  origin is whole-numbered, entry \<open>(r, col, ch)\<close> of the crop is the pixel byte at row
  \<open>(H - S) div 2 + r\<close> and column \<open>(W - S) div 2 + col\<close>.
\<close>

theorem imgToTensor_steps:
  fixes i :: image
  assumes "s = min (height i) (width i)"
  shows "\<exists>px c. fromPixels (Some i) = Inr px \<and> shape px = [height i, width i, 3]
       \<and> cropImage env px =
            slice env px [real (height i - s) / 2, real (width i - s) / 2, 0] [s, s, 3]
       \<and> cropImage env px = Inr c \<and> shape c = [s, s, 3]
       \<and> imgToTensor env (Some i) =
            Inr \<lparr>shape = [1, s, s, 3], vals = map (\<lambda>x. x / 127 - 1) (vals c)\<rparr>
       \<and> (even (height i - s) \<and> even (width i - s) \<longrightarrow>
            (\<forall>r < s. \<forall>col < s. \<forall>ch < 3.
               vals c ! ((r * s + col) * 3 + ch) =
                 real (pixel i ((((height i - s) div 2 + r) * width i
                                  + ((width i - s) div 2 + col)) * 3 + ch))))"
proof -
  let ?h = "height i" and ?w = "width i"
  let ?px = "\<lparr>shape = [?h, ?w, 3], vals = tabulate (?h * ?w * 3) (\<lambda>k. real (pixel i k))\<rparr>"
  have sh: "s \<le> ?h" and sw: "s \<le> ?w" using assms by simp_all
  have px: "fromPixels (Some i) = Inr ?px" by (simp add: fromPixels_def)
  have origin: "cropImage env ?px = slice env ?px [real (?h - s) / 2, real (?w - s) / 2, 0] [s, s, 3]"
    using sh sw assms [symmetric]
    by (simp add: cropImage_def Let_def of_nat_diff diff_divide_distrib)
  define c where "c = \<lparr>shape = [s, s, 3],
          vals =
            (if even (?h - s) \<and> even (?w - s)
             then tabulate (s * s * 3)
                    (\<lambda>k. vals ?px ! slice_source [?h, ?w, 3] ((?h - s) div 2) ((?w - s) div 2) 0 [s, s, 3] k)
             else tabulate (s * s * 3)
                    (slice_kernel env ?px [real ?h / 2 - real s / 2, real ?w / 2 - real s / 2, 0] [s, s, 3]))\<rparr>"
  have c: "cropImage env ?px = Inr c"
    using cropImage_rank3 [of ?px ?h ?w env] assms by (simp add: c_def)
  have sc: "shape c = [s, s, 3]" by (simp add: c_def)
  have out: "imgToTensor env (Some i) =
      Inr \<lparr>shape = [1, s, s, 3], vals = map (\<lambda>x. x / 127 - 1) (vals c)\<rparr>"
    using px c sc
    by (simp add: imgToTensor_def expandDims0_def toFloat_def div_scalar_def sub_scalar_def comp_def)
  have pix: "vals c ! ((r * s + col) * 3 + ch) =
      real (pixel i ((((?h - s) div 2 + r) * ?w + ((?w - s) div 2 + col)) * 3 + ch))"
    if ev: "even (?h - s) \<and> even (?w - s)" and r: "r < s" and col: "col < s" and ch: "ch < 3"
    for r col ch
  proof -
    have k: "(r * s + col) * 3 + ch < s * s * 3"
      by (rule index_bound [OF r col ch])
    have "(?h - s) div 2 + r < ?h" using sh r by linarith
    moreover have "(?w - s) div 2 + col < ?w" using sw col by linarith
    ultimately have src: "(((?h - s) div 2 + r) * ?w + ((?w - s) div 2 + col)) * 3 + ch < ?h * ?w * 3"
      using ch by (rule index_bound)
    have "vals c ! ((r * s + col) * 3 + ch) =
        vals ?px ! slice_source [?h, ?w, 3] ((?h - s) div 2) ((?w - s) div 2) 0 [s, s, 3]
          ((r * s + col) * 3 + ch)"
      using ev k by (simp add: c_def nth_tabulate)
    also have "\<dots> = vals ?px ! ((((?h - s) div 2 + r) * ?w + ((?w - s) div 2 + col)) * 3 + ch)"
      by (simp only: slice_source_at [OF col ch])
    also have "\<dots> = real (pixel i ((((?h - s) div 2 + r) * ?w + ((?w - s) div 2 + col)) * 3 + ch))"
      using src by (simp add: nth_tabulate)
    finally show ?thesis .
  qed
  have spx: "shape ?px = [?h, ?w, 3]" by simp
  from px spx origin c sc out pix show ?thesis by blast
qed

text \<open>
  C9 as stated fails: an image of two rows and four columns comes out as a tensor of
  shape \<open>[1, 2, 2, 3]\<close> holding the middle columns, not resized to 224 by 224.
\<close>

theorem imgToTensor_does_not_resize:
  "imgToTensor example_env (Some small_image) =
     Inr \<lparr>shape = [1, 2, 2, 3],
          vals = map (\<lambda>x. x / 127 - 1) [3, 4, 5, 6, 7, 8, 15, 16, 17, 18, 19, 20]\<rparr>"
  apply (simp add: small_image_def imgToTensor_def fromPixels_def cropImage_def slice_def whole_def
      expandDims0_def toFloat_def div_scalar_def sub_scalar_def Let_def tabulate_eval)
  apply (simp add: slice_source_def nth_tabulate)
  done

theorem imgToTensor_steps_witness:
  "min (height small_image) (width small_image) = 2
   \<and> even (height small_image - 2) \<and> even (width small_image - 2)
   \<and> (\<exists>px c. fromPixels (Some small_image) = Inr px
         \<and> cropImage example_env px = Inr c \<and> shape c = [2, 2, 3]
         \<and> imgToTensor example_env (Some small_image) =
              Inr \<lparr>shape = [1, 2, 2, 3], vals = map (\<lambda>x. x / 127 - 1) (vals c)\<rparr>
         \<and> vals c ! ((1 * 2 + 1) * 3 + 2) = 20)"
proof -
  have h: "2 = min (height small_image) (width small_image)"
    by (simp add: small_image_def)
  have ev: "even (height small_image - 2) \<and> even (width small_image - 2)"
    by (simp add: small_image_def)
  from imgToTensor_steps [OF h, of example_env] obtain px c
    where px: "fromPixels (Some small_image) = Inr px"
      and c: "cropImage example_env px = Inr c" and sc: "shape c = [2, 2, 3]"
      and out: "imgToTensor example_env (Some small_image) =
              Inr \<lparr>shape = [1, 2, 2, 3], vals = map (\<lambda>x. x / 127 - 1) (vals c)\<rparr>"
      and pix: "even (height small_image - 2) \<and> even (width small_image - 2) \<longrightarrow>
            (\<forall>r < 2. \<forall>col < 2. \<forall>ch < 3.
               vals c ! ((r * 2 + col) * 3 + ch) =
                 real (pixel small_image ((((height small_image - 2) div 2 + r) * width small_image
                                  + ((width small_image - 2) div 2 + col)) * 3 + ch)))"
    by blast
  from pix ev have "\<forall>r < 2. \<forall>col < 2. \<forall>ch < 3.
               vals c ! ((r * 2 + col) * 3 + ch) =
                 real (pixel small_image ((((height small_image - 2) div 2 + r) * width small_image
                                  + ((width small_image - 2) div 2 + col)) * 3 + ch))"
    by blast
  from this [rule_format, of 1 1 2] have "vals c ! ((1 * 2 + 1) * 3 + 2) = 20"
    by (simp add: small_image_def)
  with h ev px c sc out show ?thesis by auto
qed

text \<open>
  C2, as the code has it. The two paths do not share their preprocessing. \<open>addImage\<close>
  feeds the network \<open>imgToTensor\<close> of the image: cropped to the square of side
  \<open>S = min(H, W)\<close>, not resized, each entry \<open>x\<close> mapped to \<open>x / 127 - 1\<close>. \<open>predict\<close>
  feeds it the tensor built in its own body: not cropped, resized to \<open>n\<close> by \<open>n\<close>
  (\<open>n\<close> is \<open>imageSize\<close>, 224), each entry mapped to \<open>(x - 127.5) / 127.5\<close>. The two
  tensors can only be equal when \<open>S = n\<close>, and the two normalisations agree at 0 only.
\<close>

theorem preprocessing_paths:
  fixes i :: image
  assumes "s = min (height i) (width i)"
  shows "\<exists>px c r. fromPixels (Some i) = Inr px
       \<and> cropImage env px = Inr c \<and> shape c = [s, s, 3]
       \<and> resizeBilinear env px n n = Inr r \<and> shape r = [n, n, 3]
       \<and> vals r = tabulate (n * n * 3) (resize_kernel env px n n)
       \<and> imgToTensor env (Some i) =
            Inr \<lparr>shape = [1, s, s, 3], vals = map (\<lambda>x. x / 127 - 1) (vals c)\<rparr>
       \<and> predict_batched env n (Some i) =
            Inr \<lparr>shape = [1, n, n, 3], vals = map (\<lambda>x. (x - 127.5) / 127.5) (vals r)\<rparr>
       \<and> (imgToTensor env (Some i) = predict_batched env n (Some i) \<longrightarrow> s = n)
       \<and> (\<forall>x :: real. x / 127 - 1 = (x - 127.5) / 127.5 \<longleftrightarrow> x = 0)"
proof -
  from imgToTensor_Some [of i env] obtain px c
    where px: "fromPixels (Some i) = Inr px" and spx: "shape px = [height i, width i, 3]"
      and c: "cropImage env px = Inr c" and sc: "shape c = [s, s, 3]"
      and out: "imgToTensor env (Some i) =
              Inr \<lparr>shape = [1, s, s, 3], vals = map (\<lambda>x. x / 127 - 1) (vals c)\<rparr>"
    unfolding assms by blast
  define r where "r = \<lparr>shape = [n, n, 3], vals = tabulate (n * n * 3) (resize_kernel env px n n)\<rparr>"
  have r: "resizeBilinear env px n n = Inr r"
    using spx by (simp add: resizeBilinear_def r_def)
  have sr: "shape r = [n, n, 3]" and vr: "vals r = tabulate (n * n * 3) (resize_kernel env px n n)"
    by (simp_all add: r_def)
  have pb: "predict_batched env n (Some i) =
            Inr \<lparr>shape = [1, n, n, 3], vals = map (\<lambda>x. (x - 127.5) / 127.5) (vals r)\<rparr>"
    using px r spx
    by (simp add: predict_batched_def toFloat_def reshape_def sub_scalar_def div_scalar_def
        r_def comp_def)
  have same: "s = n" if "imgToTensor env (Some i) = predict_batched env n (Some i)"
    using that out pb by simp
  have norm: "x / 127 - 1 = (x - 127.5) / 127.5 \<longleftrightarrow> x = 0" for x :: real
    by (simp add: field_simps)
  from px c sc r sr vr out pb same norm show ?thesis by blast
qed

text \<open>
  C2 as stated fails: on the image of two rows and four columns the two paths build
  different tensors.
\<close>

theorem preprocessing_differs:
  "imgToTensor example_env (Some small_image) \<noteq> predict_batched example_env 224 (Some small_image)"
  by (simp add: small_image_def imgToTensor_def fromPixels_def cropImage_def slice_def whole_def
      expandDims0_def toFloat_def div_scalar_def sub_scalar_def Let_def predict_batched_def
      resizeBilinear_def reshape_def)

theorem preprocessing_paths_witness:
  "min (height example_image) (width example_image) = 224
   \<and> (\<exists>px c r. fromPixels (Some example_image) = Inr px
       \<and> cropImage example_env px = Inr c \<and> shape c = [224, 224, 3]
       \<and> resizeBilinear example_env px 224 224 = Inr r \<and> shape r = [224, 224, 3]
       \<and> imgToTensor example_env (Some example_image) =
            Inr \<lparr>shape = [1, 224, 224, 3], vals = map (\<lambda>x. x / 127 - 1) (vals c)\<rparr>
       \<and> predict_batched example_env 224 (Some example_image) =
            Inr \<lparr>shape = [1, 224, 224, 3], vals = map (\<lambda>x. (x - 127.5) / 127.5) (vals r)\<rparr>)"
proof -
  have h: "224 = min (height example_image) (width example_image)"
    by (simp add: example_image_def)
  from preprocessing_paths [OF h, of example_env 224] h [symmetric] show ?thesis by blast
qed

section \<open>Properties of prediction\<close>

lemma predict_logits_shape:
  assumes "mobilenet st = Some m" and "predict_logits env st img = Inr logits"
  shows "shape logits = 1 # outputShape m \<and> length (vals logits) = prod_list (outputShape m)"
proof (cases img)
  case None
  with assms show ?thesis by (simp add: predict_logits_def predict_batched_def fromPixels_def)
next
  case (Some i)
  with assms show ?thesis
    by (auto simp: predict_logits_def predict_batched_def fromPixels_def toFloat_def
        resizeBilinear_def reshape_def sub_scalar_def div_scalar_def model_predict_def
        length_tabulate split: if_splits)
qed

lemma predict_logits_head:
  "predict_logits env (st\<lparr>customModel := h, hasAnyTrainedClass := t\<rparr>) img = predict_logits env st img"
  by (simp add: predict_logits_def split: sum.splits)

lemma predict_logits_video:
  "predict_logits env (st\<lparr>video := v\<rparr>) img = predict_logits env st img"
  by (simp add: predict_logits_def split: sum.splits)

lemmas predict_eval_defs = predict_def predict_logits_def predict_batched_def resizeBilinear_def
  reshape_def

text \<open>
  C1, as the code has it. A \<open>predict\<close> call on a loaded classifier runs the image through
  the full network \<open>mobilenet\<close> only: its outcome is the same whatever head
  \<open>customModel\<close> holds and whether or not examples were added, and the probability
  vector it ranks has the shape and the length of the full network's output.
\<close>

theorem predict_ignores_head:
  assumes "modelLoaded st" and "mobilenet st = Some m"
    and "predict env st inp a cb = (st', ev)"
  shows "snd (predict env (st\<lparr>customModel := h, hasAnyTrainedClass := t\<rparr>) inp a cb) = ev
       \<and> ((\<exists>e. ev = [Rejected e])
          \<or> (\<exists>logits k cb'. ev = [Awaiting logits k cb'] \<and> shape logits = 1 # outputShape m
                \<and> length (vals logits) = prod_list (outputShape m)))"
proof -
  have same: "snd (predict env (st\<lparr>customModel := h, hasAnyTrainedClass := t\<rparr>) inp a cb) =
      snd (predict env st inp a cb)"
    using assms(1)
    by (auto simp: predict_def Let_def predict_logits_head predict_logits_video predict_logits_def
        split: input.splits element.splits sum.splits option.splits)
  have shape: "(\<exists>e. ev = [Rejected e])
          \<or> (\<exists>logits k cb'. ev = [Awaiting logits k cb'] \<and> shape logits = 1 # outputShape m
                \<and> length (vals logits) = prod_list (outputShape m))"
    using assms predict_logits_shape [of st m env] predict_logits_shape [of "st\<lparr>video := vv\<rparr>" m env for vv]
    by (auto simp: predict_def Let_def split: input.splits element.splits sum.splits if_splits)
  from same shape assms(3) show ?thesis by simp
qed

text \<open>
  C1 as stated fails: after three examples and a successful \<open>train\<close> with two classes,
  \<open>predict\<close> still ranks the thousand outputs of the full network.
\<close>

theorem predict_after_training_uses_full_network:
  "snd (train example_env (run example_env (constructor example_env None no_options)
          [Load example_mobilenet example_layer, AddImage 0 (Some example_image),
           AddImage 1 (Some example_image), AddImage 0 (Some example_image)])) = Inr ()
   \<and> modelLoaded (run example_env (constructor example_env None no_options) trained_run)
   \<and> map_option outputShape (customModel (run example_env (constructor example_env None no_options) trained_run))
        = Some [2]
   \<and> numClasses (run example_env (constructor example_env None no_options) trained_run) = 2
   \<and> snd (predict example_env (run example_env (constructor example_env None no_options) trained_run)
          (Elem (HTMLImageElement example_image)) JSNull (JSFunction 0)) =
        [Awaiting \<lparr>shape = [1, 1000], vals = tabulate 1000 (\<lambda>k. 1 / 1000)\<rparr> 10 (JSFunction 0)]
   \<and> length (tabulate 1000 (\<lambda>k. 1 / 1000 :: real)) = 1000"
  by (simp add: example_defs eval_defs predict_eval_defs trained_run_def length_tabulate js_times_3_04)

theorem predict_ignores_head_witness:
  "modelLoaded (run example_env (constructor example_env None no_options) trained_run)
   \<and> mobilenet (run example_env (constructor example_env None no_options) trained_run) = Some example_mobilenet
   \<and> snd (predict example_env
          ((run example_env (constructor example_env None no_options) trained_run)
             \<lparr>customModel := None, hasAnyTrainedClass := False\<rparr>)
          (Elem (HTMLImageElement example_image)) JSNull (JSFunction 0)) =
       snd (predict example_env (run example_env (constructor example_env None no_options) trained_run)
          (Elem (HTMLImageElement example_image)) JSNull (JSFunction 0))
   \<and> snd (predict example_env (run example_env (constructor example_env None no_options) trained_run)
          (Elem (HTMLImageElement example_image)) JSNull (JSFunction 0)) =
        [Awaiting \<lparr>shape = [1, 1000], vals = tabulate 1000 (\<lambda>k. 1 / 1000)\<rparr> 10 (JSFunction 0)]"
proof -
  let ?S = "run example_env (constructor example_env None no_options) trained_run"
  have l: "modelLoaded ?S"
    by (simp add: example_defs eval_defs trained_run_def js_times_3_04)
  have m: "mobilenet ?S = Some example_mobilenet"
    by (simp add: example_defs eval_defs trained_run_def js_times_3_04)
  have e: "snd (predict example_env ?S (Elem (HTMLImageElement example_image)) JSNull (JSFunction 0)) =
        [Awaiting \<lparr>shape = [1, 1000], vals = tabulate 1000 (\<lambda>k. 1 / 1000)\<rparr> 10 (JSFunction 0)]"
    by (simp add: example_defs eval_defs predict_eval_defs trained_run_def js_times_3_04)
  note th = predict_ignores_head [where env = example_env
      and inp = "Elem (HTMLImageElement example_image)" and a = JSNull and cb = "JSFunction 0"
      and h = None and t = False, OF l m surjective_pairing]
  from th l m e show ?thesis by simp
qed

section \<open>Properties of the queue\<close>

lemma queue_inv_push:
  assumes "queue_inv st" and "waitingPredictions st' = waitingPredictions st @ [q]"
    and "video st = None \<or> video st' = video st"
    and "case q_imgToPredict q of Some (HTMLVideoElement w) \<Rightarrow> video st' = Some w | _ \<Rightarrow> True"
  shows "queue_inv st'"
proof -
  have "case q_imgToPredict p of Some (HTMLVideoElement w) \<Rightarrow> video st' = Some w | _ \<Rightarrow> True"
    if "p \<in> set (waitingPredictions st)" for p
  proof (cases "q_imgToPredict p")
    case None
    then show ?thesis by simp
  next
    case (Some el)
    show ?thesis
    proof (cases el)
      case (HTMLImageElement i)
      with Some show ?thesis by simp
    next
      case (HTMLVideoElement w)
      from assms(1) that
      have "case q_imgToPredict p of Some (HTMLVideoElement w) \<Rightarrow> video st = Some w | _ \<Rightarrow> True"
        by (auto simp: queue_inv_def)
      with Some HTMLVideoElement have "video st = Some w" by simp
      with assms(3) Some HTMLVideoElement show ?thesis by simp
    qed
  qed
  with assms(2,4) show ?thesis by (auto simp: queue_inv_def)
qed

lemma predict_queued:
  assumes "\<not> modelLoaded st" and "topKPredictions st = 10" and "queue_inv st"
    and "predict env st inp a c = (st', ev)"
  shows "ev = [] \<and> \<not> modelLoaded st' \<and> hasAnyTrainedClass st' = hasAnyTrainedClass st
       \<and> topKPredictions st' = 10 \<and> queue_inv st'
       \<and> (\<exists>q. waitingPredictions st' = waitingPredictions st @ [q]
              \<and> captures q (inp, a, c))"
proof -
  have "\<exists>q. ev = [] \<and> \<not> modelLoaded st' \<and> hasAnyTrainedClass st' = hasAnyTrainedClass st
       \<and> topKPredictions st' = 10
       \<and> waitingPredictions st' = waitingPredictions st @ [q]
       \<and> (video st = None \<or> video st' = video st)
       \<and> (case q_imgToPredict q of Some (HTMLVideoElement w) \<Rightarrow> video st' = Some w | _ \<Rightarrow> True)
       \<and> captures q (inp, a, c)"
  proof (cases inp)
    case (Elem el)
    show ?thesis
    proof (cases el)
      case (HTMLImageElement i)
      with Elem assms(1,2,4) show ?thesis
        by (auto simp: predict_def Let_def js_or_def)
    next
      case (HTMLVideoElement w)
      with Elem assms(1,2,4) show ?thesis
        by (cases "video st") (auto simp: predict_def Let_def js_or_def)
    qed
  next
    case (Num n)
    with assms(1,2,4) show ?thesis
      by (cases "video st") (auto simp: predict_def Let_def js_or_def)
  next
    case NoInput
    with assms(1,2,4) show ?thesis
      by (cases "video st") (auto simp: predict_def Let_def js_or_def)
  qed
  then obtain q where q: "ev = []" "\<not> modelLoaded st'" "hasAnyTrainedClass st' = hasAnyTrainedClass st"
      "topKPredictions st' = 10" "waitingPredictions st' = waitingPredictions st @ [q]"
      "captures q (inp, a, c)"
    and v: "video st = None \<or> video st' = video st"
      "case q_imgToPredict q of Some (HTMLVideoElement w) \<Rightarrow> video st' = Some w | _ \<Rightarrow> True"
    by blast
  from queue_inv_push [OF assms(3) q(5) v] q show ?thesis by blast
qed

lemma addImage_not_loaded:
  assumes "\<not> modelLoaded st"
  shows "addImage env st label i = (st, Inr False)"
  using assms by (simp add: addImage_def)

lemma train_no_examples:
  assumes "\<not> hasAnyTrainedClass st"
  shows "fst (train env st) = st"
  using assms by (simp add: train_def)

text \<open>Before the load: nothing is started, and the queue grows by one entry per \<open>predict\<close> call.\<close>

lemma queued_run:
  assumes "\<not> modelLoaded st" and "\<not> hasAnyTrainedClass st" and "topKPredictions st = 10"
    and "queue_inv st" and "no_load pre"
  shows "\<not> modelLoaded (run env st pre) \<and> \<not> hasAnyTrainedClass (run env st pre)
       \<and> queue_inv (run env st pre)
       \<and> trace env st pre = []
       \<and> (\<exists>qs. waitingPredictions (run env st pre) = waitingPredictions st @ qs
              \<and> list_all2 captures qs (predict_calls pre))"
  using assms
proof (induction pre arbitrary: st)
  case Nil
  then show ?case by simp
next
  case (Cons c pre)
  show ?case
  proof (cases c)
    case (Load m l)
    with Cons.prems show ?thesis by simp
  next
    case (Predict inp a cb)
    obtain st' ev where p: "predict env st inp a cb = (st', ev)"
      by (cases "predict env st inp a cb")
    from predict_queued [OF Cons.prems(1,3,4) p] Cons.prems(2) obtain q
      where ev: "ev = []" and nl: "\<not> modelLoaded st'" and nt: "\<not> hasAnyTrainedClass st'"
        and tk: "topKPredictions st' = 10" and qi: "queue_inv st'"
        and q: "waitingPredictions st' = waitingPredictions st @ [q]"
        and qc: "captures q (inp, a, cb)"
      by auto
    from Cons.prems(5) Predict have "no_load pre" by simp
    from Cons.IH [OF nl nt tk qi this] obtain qs
      where ih: "\<not> modelLoaded (run env st' pre)" "\<not> hasAnyTrainedClass (run env st' pre)"
        "queue_inv (run env st' pre)" "trace env st' pre = []"
        and qs: "waitingPredictions (run env st' pre) = waitingPredictions st' @ qs"
        and cb: "list_all2 captures qs (predict_calls pre)"
      by auto
    have "waitingPredictions (run env st' pre) = waitingPredictions st @ (q # qs)"
      using q qs by simp
    moreover have "list_all2 captures (q # qs) (predict_calls (c # pre))"
      using qc cb Predict by simp
    moreover have "run env st (c # pre) = run env st' pre" and "trace env st (c # pre) = trace env st' pre"
      using Predict p ev by simp_all
    ultimately show ?thesis
      using ih by metis
  next
    case (AddImage label i)
    with Cons.prems have "no_load pre" by simp
    from Cons.IH [OF Cons.prems(1,2,3,4) this] AddImage addImage_not_loaded [OF Cons.prems(1)]
    show ?thesis by simp
  next
    case Train
    with Cons.prems have "no_load pre" by simp
    from Cons.IH [OF Cons.prems(1,2,3,4) this] Train train_no_examples [OF Cons.prems(2)]
    show ?thesis by simp
  qed
qed

text \<open>The replay of one entry, and of the queue: the classifier is left as it is.\<close>

lemma replay_one:
  assumes "modelLoaded st"
    and "case q_imgToPredict q of Some (HTMLVideoElement w) \<Rightarrow> video st = Some w | _ \<Rightarrow> True"
  shows "predict env st (replay_input q) (JSNumber (q_num q)) (q_callback q) =
           (st, [replay_event env st q])"
proof (cases "q_imgToPredict q")
  case None
  with assms(1) show ?thesis
    by (cases "video st")
      (simp_all add: predict_def Let_def replay_input_def replay_event_def replay_image_def
        replay_callback_def js_or_def split: sum.splits)
next
  case (Some el)
  show ?thesis
  proof (cases el)
    case (HTMLImageElement i)
    with Some assms(1) show ?thesis
      by (simp add: predict_def Let_def replay_input_def replay_event_def replay_image_def
          replay_callback_def js_or_def split: sum.splits)
  next
    case (HTMLVideoElement w)
    with Some assms show ?thesis
      by (simp add: predict_def Let_def replay_input_def replay_event_def replay_image_def
          replay_callback_def js_or_def split: sum.splits)
  qed
qed

lemma replay_exact:
  assumes "modelLoaded st"
    and "\<forall>q \<in> set qs. case q_imgToPredict q of Some (HTMLVideoElement w) \<Rightarrow> video st = Some w | _ \<Rightarrow> True"
  shows "replay env st qs = (st, map (replay_event env st) qs)"
  using assms(2)
proof (induction qs)
  case Nil
  then show ?case by simp
next
  case (Cons i qs)
  then have one: "predict env st (replay_input i) (JSNumber (q_num i)) (q_callback i) =
      (st, [replay_event env st i])"
    and rest: "replay env st qs = (st, map (replay_event env st) qs)"
    using replay_one [OF assms(1), of i env] by simp_all
  then show ?case by simp
qed

lemma loadModel_state: "fst (loadModel env st m l) = st\<lparr>mobilenet := Some m\<rparr>"
  by (auto simp: loadModel_def Let_def split: option.splits sum.splits)

lemma load_exact:
  assumes "snd (loadModel env st m l) = Inr net" and "queue_inv st"
    and "st' = st\<lparr>mobilenet := Some m, modelLoaded := True, mobilenetModified := Some net\<rparr>"
  shows "load env st m l = (st', map (replay_event env st') (waitingPredictions st) @ [OnReady])"
proof -
  have lm: "loadModel env st m l = (st\<lparr>mobilenet := Some m\<rparr>, Inr net)"
    using assms(1) loadModel_state [of env st m l] by (cases "loadModel env st m l") simp
  have "replay env st' (waitingPredictions st) = (st', map (replay_event env st') (waitingPredictions st))"
    using assms(2,3) by (intro replay_exact) (auto simp: queue_inv_def split: option.splits element.splits)
  with lm assms(3) show ?thesis
    by (simp add: load_def onModelLoaded_def Let_def)
qed

lemma replay_event_not_OnReady: "replay_event env st q \<noteq> OnReady"
  by (simp add: replay_event_def split: sum.splits)

lemma replay_event_no_delivery: "\<not> delivery (replay_event env st q)"
  by (simp add: replay_event_def split: sum.splits)

text \<open>What the turns add to the events.\<close>

lemma predict_not_OnReady: "OnReady \<notin> set (snd (predict env st inp a c))"
  by (auto simp: predict_def Let_def split: input.splits element.splits sum.splits if_splits)

lemma emitted_not_OnReady:
  assumes "no_load [c]"
  shows "OnReady \<notin> set (emitted env st c)"
  using assms by (cases c) (simp_all add: predict_not_OnReady)

lemma finish_not_OnReady: "OnReady \<notin> set (finish env p)"
  by (auto simp: finish_def getTopKClasses_def invoke_def
      split: prod.splits sum.splits jsarg.splits if_splits)

lemma started_append: "started (evs @ evs') = started evs @ started evs'"
  by (induction evs rule: started.induct) simp_all

lemma trace_append: "trace env st (cs @ ds) = trace env st cs @ trace env (run env st cs) ds"
  by (induction cs arbitrary: st) simp_all

lemma run_append: "run env st (cs @ ds) = run env (run env st cs) ds"
  by (induction cs arbitrary: st) simp_all

lemma session_append: "session env rt (ts @ us) = session env (session env rt ts) us"
  by (induction ts arbitrary: rt) simp_all

lemma session_jobs:
  "session env rt (map Job cs) =
     \<lparr>obj = run env (obj rt) cs,
      pending = pending rt @ started (trace env (obj rt) cs),
      seen = seen rt @ trace env (obj rt) cs\<rparr>"
  by (induction cs arbitrary: rt) (simp_all add: started_append)

lemma no_load_Cons: "no_load (c # cs) \<longleftrightarrow> no_load [c] \<and> no_load cs"
  by (cases c) simp_all

lemma session_seen:
  "\<exists>rest. seen (session env rt ts) = seen rt @ rest
         \<and> (no_load (client_calls ts) \<longrightarrow> OnReady \<notin> set rest)"
proof (induction ts arbitrary: rt)
  case Nil
  then show ?case by simp
next
  case (Cons t ts)
  from Cons.IH [of "turn_step env rt t"] obtain rest
    where r: "seen (session env (turn_step env rt t) ts) = seen (turn_step env rt t) @ rest"
      and n: "no_load (client_calls ts) \<longrightarrow> OnReady \<notin> set rest"
    by blast
  show ?case
  proof (cases t)
    case (Job c)
    have "seen (session env rt (t # ts)) = seen rt @ (emitted env (obj rt) c @ rest)"
      using r Job by simp
    moreover have "OnReady \<notin> set (emitted env (obj rt) c @ rest)" if "no_load (client_calls (t # ts))"
      using that n Job emitted_not_OnReady [of c env "obj rt"] no_load_Cons [of c "client_calls ts"]
      by simp
    ultimately show ?thesis by blast
  next
    case (Data j)
    show ?thesis
    proof (cases "j < length (pending rt)")
      case True
      have "seen (session env rt (t # ts)) = seen rt @ (finish env (pending rt ! j) @ rest)"
        using r Data True by simp
      moreover have "OnReady \<notin> set (finish env (pending rt ! j) @ rest)"
        if "no_load (client_calls (t # ts))"
        using that n Data finish_not_OnReady [of env "pending rt ! j"] by simp
      ultimately show ?thesis by blast
    next
      case False
      with r n Data show ?thesis by simp
    qed
  qed
qed

text \<open>A suspended prediction with a function for its callback, when its data arrives.\<close>

lemma finish_function:
  assumes "topK \<le> length (vals logits)"
  shows "\<exists>r. finish env (logits, topK, JSFunction f) = [Called f r] \<and> length r = topK
           \<and> sorted_wrt (\<lambda>a b. probability b \<le> probability a) r"
proof -
  have "\<forall>n. JSFunction f \<noteq> JSNumber (Suc n)" by simp
  from getTopKClasses_sorted [OF this, of topK logits env] assms obtain r
    where r: "snd (getTopKClasses env logits topK (JSFunction f)) = Inr r"
      and l: "length r = topK" and s: "sorted_wrt (\<lambda>a b. probability b \<le> probability a) r"
    by blast
  from r have "getTopKClasses env logits topK (JSFunction f) = ([Called f r], Inr r)"
    by (auto simp: getTopKClasses_def invoke_def split: sum.splits prod.splits)
  then have "finish env (logits, topK, JSFunction f) = [Called f r]"
    by (simp add: finish_def)
  with l s show ?thesis by blast
qed

text \<open>
  C3, as the code has it. On a fresh classifier the \<open>predict\<close> calls made before the
  load completes start nothing; each is captured as one queue entry, in the order of
  the calls, and the entries on a video hold the bound video. The job of the load
  leaves the classifier loaded, with the queue as it was. In this job every queue entry
  is handed to \<open>predict\<close>, in queue order, which starts its prediction (or rejects it);
  then the construction callback is called. At that moment all the predictions started
  are still suspended and no ranking has been delivered. Whatever comes later comes
  after these events, and without a second load the construction callback is not called
  again. An entry with an element and a function for its callback: if its replay is
  suspended with \<open>k\<close> no larger than the vocabulary, the logits are those of the
  entry's element, and when its data arrives the entry's callback is called with a
  ranking of \<open>k\<close> predictions in order of non-increasing probability.
\<close>

theorem queued_predictions_replayed:
  assumes "no_load pre"
    and "st = run env (constructor env v opts) pre"
    and "snd (loadModel env st m l) = Inr net"
    and "rt = session env (new_classifier env v opts) (map Job pre @ [Job (Load m l)])"
  shows "session env (new_classifier env v opts) (map Job pre) = \<lparr>obj = st, pending = [], seen = []\<rparr>
       \<and> list_all2 captures (waitingPredictions st) (predict_calls pre)
       \<and> queue_inv st
       \<and> obj rt = st\<lparr>mobilenet := Some m, modelLoaded := True, mobilenetModified := Some net\<rparr>
       \<and> seen rt = map (replay_event env (obj rt)) (waitingPredictions st) @ [OnReady]
       \<and> pending rt = started (map (replay_event env (obj rt)) (waitingPredictions st))
       \<and> filter delivery (seen rt) = []
       \<and> (\<exists>rest. seen (session env rt later) = seen rt @ rest
              \<and> (no_load (client_calls later) \<longrightarrow>
                   OnReady \<notin> set rest \<and> count_list (seen (session env rt later)) OnReady = 1))
       \<and> (q \<in> set (waitingPredictions st) \<and> q_imgToPredict q = Some el \<and> q_callback q = JSFunction f
            \<and> replay_event env (obj rt) q = Awaiting logits k cb \<and> k \<le> prod_list (outputShape m) \<longrightarrow>
            cb = JSFunction f
            \<and> predict_logits env (obj rt) (Some (element_image el)) = Inr logits
            \<and> (\<exists>r. finish env (logits, k, cb) = [Called f r] \<and> length r = k
                  \<and> sorted_wrt (\<lambda>a b. probability b \<le> probability a) r))"
proof -
  let ?st0 = "constructor env v opts"
  let ?st' = "st\<lparr>mobilenet := Some m, modelLoaded := True, mobilenetModified := Some net\<rparr>"
  let ?evs = "map (replay_event env ?st') (waitingPredictions st)"
  have fresh: "\<not> modelLoaded ?st0" "\<not> hasAnyTrainedClass ?st0" "topKPredictions ?st0 = 10"
    "queue_inv ?st0" "waitingPredictions ?st0 = []"
    by (simp_all add: constructor_def queue_inv_def)
  from queued_run [OF fresh(1,2,3,4) assms(1), of env] fresh(5) assms(2)
  have quiet: "trace env ?st0 pre = []"
    and cap: "list_all2 captures (waitingPredictions st) (predict_calls pre)"
    and qi: "queue_inv st"
    by auto
  have before: "session env (new_classifier env v opts) (map Job pre) = \<lparr>obj = st, pending = [], seen = []\<rparr>"
    using quiet assms(2) by (simp add: session_jobs new_classifier_def)
  have ld: "load env st m l = (?st', ?evs @ [OnReady])"
    by (rule load_exact [OF assms(3) qi refl])
  have rt: "rt = \<lparr>obj = ?st', pending = started ?evs, seen = ?evs @ [OnReady]\<rparr>"
    using assms(4) before ld by (simp add: session_append started_append)
  have ob: "obj rt = ?st'" and sn: "seen rt = map (replay_event env (obj rt)) (waitingPredictions st) @ [OnReady]"
    and pd: "pending rt = started (map (replay_event env (obj rt)) (waitingPredictions st))"
    using rt by simp_all
  have nd: "filter delivery (seen rt) = []"
    unfolding sn by (simp add: filter_empty_conv replay_event_no_delivery)
  from session_seen [of env rt later] obtain rest
    where rest: "seen (session env rt later) = seen rt @ rest"
      and no: "no_load (client_calls later) \<longrightarrow> OnReady \<notin> set rest"
    by blast
  have "count_list (seen rt) OnReady = 1"
    unfolding sn
    by (simp add: count_list_0_iff replay_event_not_OnReady replay_event_not_OnReady [symmetric] image_iff)
  then have once: "count_list (seen (session env rt later)) OnReady = 1" if "OnReady \<notin> set rest"
    using that rest by (simp add: count_list_0_iff)
  have later: "\<exists>rest. seen (session env rt later) = seen rt @ rest
              \<and> (no_load (client_calls later) \<longrightarrow>
                   OnReady \<notin> set rest \<and> count_list (seen (session env rt later)) OnReady = 1)"
    using rest no once by blast
  have deliver: "cb = JSFunction f
            \<and> predict_logits env (obj rt) (Some (element_image el)) = Inr logits
            \<and> (\<exists>r. finish env (logits, k, cb) = [Called f r] \<and> length r = k
                  \<and> sorted_wrt (\<lambda>a b. probability b \<le> probability a) r)"
    if h: "q_imgToPredict q = Some el" "q_callback q = JSFunction f"
      "replay_event env (obj rt) q = Awaiting logits k cb" "k \<le> prod_list (outputShape m)"
  proof -
    from h(1,2,3) have cb: "cb = JSFunction f"
      and lg: "predict_logits env (obj rt) (Some (element_image el)) = Inr logits"
      by (auto simp: replay_event_def replay_image_def replay_callback_def split: sum.splits)
    have "mobilenet (obj rt) = Some m" using ob by simp
    from predict_logits_shape [OF this lg] h(4) have "k \<le> length (vals logits)" by simp
    from finish_function [OF this, of env f] cb lg show ?thesis by simp
  qed
  from before cap qi ob sn pd nd later deliver show ?thesis by blast
qed

text \<open>
  C3 as stated fails. A classifier is constructed on a video and asked, before the load
  completes, for three predictions. The entry queued holds the three, but its replay
  asks for ten; and when the construction callback is called the prediction is still
  suspended: its ranking, of ten predictions, is delivered in a later job.
\<close>

theorem queued_prediction_delivered_after_ready:
  "map q_num (waitingPredictions
      (run example_env (constructor example_env (Some (HTMLVideoElement example_image)) no_options)
         three_classes)) = [3]
   \<and> seen (session example_env
         (new_classifier example_env (Some (HTMLVideoElement example_image)) no_options)
         (map Job three_classes @ [Job (Load example_mobilenet example_layer)])) =
       [Awaiting \<lparr>shape = [1, 1000], vals = tabulate 1000 (\<lambda>k. 1 / 1000)\<rparr> 10 (JSFunction 1), OnReady]
   \<and> pending (session example_env
         (new_classifier example_env (Some (HTMLVideoElement example_image)) no_options)
         (map Job three_classes @ [Job (Load example_mobilenet example_layer)])) =
       [(\<lparr>shape = [1, 1000], vals = tabulate 1000 (\<lambda>k. 1 / 1000)\<rparr>, 10, JSFunction 1)]
   \<and> (\<exists>r. seen (session example_env
         (new_classifier example_env (Some (HTMLVideoElement example_image)) no_options)
         (map Job three_classes @ [Job (Load example_mobilenet example_layer), Data 0])) =
       [Awaiting \<lparr>shape = [1, 1000], vals = tabulate 1000 (\<lambda>k. 1 / 1000)\<rparr> 10 (JSFunction 1), OnReady,
        Called 1 r]
        \<and> length r = 10)"
proof -
  let ?L = "\<lparr>shape = [1, 1000], vals = tabulate 1000 (\<lambda>k. 1 / 1000 :: real)\<rparr>"
  let ?N = "new_classifier example_env (Some (HTMLVideoElement example_image)) no_options"
  let ?S = "session example_env ?N (map Job three_classes @ [Job (Load example_mobilenet example_layer)])"
  have q: "map q_num (waitingPredictions
      (run example_env (constructor example_env (Some (HTMLVideoElement example_image)) no_options)
         three_classes)) = [3]"
    by (simp add: example_defs eval_defs predict_eval_defs three_classes_def)
  have s1: "seen ?S = [Awaiting ?L 10 (JSFunction 1), OnReady]"
    by (simp add: example_defs eval_defs predict_eval_defs three_classes_def new_classifier_def
        replay_input_def)
  have s2: "pending ?S = [(?L, 10, JSFunction 1)]"
    by (simp add: example_defs eval_defs predict_eval_defs three_classes_def new_classifier_def
        replay_input_def)
  have "(10::nat) \<le> length (vals ?L)" by (simp add: length_tabulate)
  from finish_function [OF this, of example_env 1] obtain r
    where r: "finish example_env (?L, 10, JSFunction 1) = [Called 1 r]" and l: "length r = 10"
    by blast
  have ap: "session example_env ?N
         (map Job three_classes @ [Job (Load example_mobilenet example_layer), Data 0]) =
        turn_step example_env ?S (Data 0)"
    using session_append [of example_env ?N
        "map Job three_classes @ [Job (Load example_mobilenet example_layer)]" "[Data 0]"]
    by simp
  have "seen (turn_step example_env ?S (Data 0)) = seen ?S @ finish example_env (pending ?S ! 0)"
    by (simp add: s2)
  then have d: "seen (session example_env ?N
         (map Job three_classes @ [Job (Load example_mobilenet example_layer), Data 0])) =
       [Awaiting ?L 10 (JSFunction 1), OnReady, Called 1 r]"
    using ap s1 s2 r by simp
  from q s1 s2 d l show ?thesis by blast
qed

theorem queued_predictions_replayed_witness:
  "no_load early_calls
   \<and> snd (loadModel example_env (run example_env (constructor example_env None no_options) early_calls)
        example_mobilenet example_layer) =
       Inr \<lparr>inputShape = [224, 224, 3], outputShape = [7, 7, 256], forward = (\<lambda>x k. 0)\<rparr>
   \<and> map q_callback
         (waitingPredictions (run example_env (constructor example_env None no_options) early_calls)) =
       [JSFunction 1, JSFunction 2]
   \<and> seen (session example_env (new_classifier example_env None no_options)
         (map Job early_calls @ [Job (Load example_mobilenet example_layer)])) =
       [Awaiting \<lparr>shape = [1, 1000], vals = tabulate 1000 (\<lambda>k. 1 / 1000)\<rparr> 10 (JSFunction 1),
        Awaiting \<lparr>shape = [1, 1000], vals = tabulate 1000 (\<lambda>k. 1 / 1000)\<rparr> 10 (JSFunction 2),
        OnReady]
   \<and> pending (session example_env (new_classifier example_env None no_options)
         (map Job early_calls @ [Job (Load example_mobilenet example_layer)])) =
       [(\<lparr>shape = [1, 1000], vals = tabulate 1000 (\<lambda>k. 1 / 1000)\<rparr>, 10, JSFunction 1),
        (\<lparr>shape = [1, 1000], vals = tabulate 1000 (\<lambda>k. 1 / 1000)\<rparr>, 10, JSFunction 2)]
   \<and> no_load (client_calls late_turns)
   \<and> count_list (seen (session example_env
         (session example_env (new_classifier example_env None no_options)
            (map Job early_calls @ [Job (Load example_mobilenet example_layer)]))
         late_turns)) OnReady = 1
   \<and> (\<exists>r. finish example_env
            (\<lparr>shape = [1, 1000], vals = tabulate 1000 (\<lambda>k. 1 / 1000)\<rparr>, 10, JSFunction 2)
          = [Called 2 r] \<and> length r = 10)"
proof -
  let ?L = "\<lparr>shape = [1, 1000], vals = tabulate 1000 (\<lambda>k. 1 / 1000 :: real)\<rparr>"
  let ?C = "constructor example_env None no_options"
  let ?st = "run example_env ?C early_calls"
  let ?net = "\<lparr>inputShape = [224, 224, 3], outputShape = [7, 7, 256], forward = (\<lambda>x k. 0 :: real)\<rparr>"
  let ?rt = "session example_env (new_classifier example_env None no_options)
         (map Job early_calls @ [Job (Load example_mobilenet example_layer)])"
  let ?q = "\<lparr>q_imgToPredict = Some (HTMLImageElement small_image), q_num = 10, q_callback = JSFunction 2\<rparr>"
  have h1: "no_load early_calls" by (simp add: early_calls_def)
  have h2: "no_load (client_calls late_turns)" by (simp add: late_turns_def late_calls_def)
  have h3: "snd (loadModel example_env ?st example_mobilenet example_layer) = Inr ?net"
    by (simp add: example_defs eval_defs predict_eval_defs early_calls_def small_image_def)
  have w: "waitingPredictions ?st =
      [\<lparr>q_imgToPredict = Some (HTMLImageElement example_image), q_num = 10, q_callback = JSFunction 1\<rparr>, ?q]"
    by (simp add: eval_defs predict_eval_defs early_calls_def)
  have qc: "map q_callback (waitingPredictions ?st) = [JSFunction 1, JSFunction 2]"
    by (simp add: w)
  have o: "obj ?rt = ?st\<lparr>mobilenet := Some example_mobilenet, modelLoaded := True,
      mobilenetModified := Some ?net\<rparr>"
    using queued_predictions_replayed [OF h1 refl h3 refl] by blast
  have e: "replay_event example_env
        (?st\<lparr>mobilenet := Some example_mobilenet, modelLoaded := True, mobilenetModified := Some ?net\<rparr>) q
      = Awaiting ?L 10 (q_callback q)"
    if "q \<in> set (waitingPredictions ?st)" for q
    using that unfolding w
    by (auto simp: replay_event_def replay_image_def replay_callback_def example_defs eval_defs
        predict_eval_defs early_calls_def small_image_def)
  have me: "map (replay_event example_env (obj ?rt)) (waitingPredictions ?st) =
      map (\<lambda>q. Awaiting ?L 10 (q_callback q)) (waitingPredictions ?st)"
    unfolding o by (rule map_cong [OF refl e])
  have sn: "seen ?rt = [Awaiting ?L 10 (JSFunction 1), Awaiting ?L 10 (JSFunction 2), OnReady]"
  proof -
    have "seen ?rt = map (replay_event example_env (obj ?rt)) (waitingPredictions ?st) @ [OnReady]"
      using queued_predictions_replayed [OF h1 refl h3 refl] by blast
    then show ?thesis unfolding me by (simp add: w)
  qed
  have pd: "pending ?rt = [(?L, 10, JSFunction 1), (?L, 10, JSFunction 2)]"
  proof -
    have "pending ?rt = started (map (replay_event example_env (obj ?rt)) (waitingPredictions ?st))"
      using queued_predictions_replayed [OF h1 refl h3 refl] by blast
    then show ?thesis unfolding me by (simp add: w)
  qed
  have once: "count_list (seen (session example_env ?rt late_turns)) OnReady = 1"
    using queued_predictions_replayed [OF h1 refl h3 refl, where later = late_turns] h2 by blast
  have m: "?q \<in> set (waitingPredictions ?st)" by (simp add: w)
  have r2: "replay_event example_env (obj ?rt) ?q = Awaiting ?L 10 (JSFunction 2)"
    unfolding o using e [OF m] by simp
  have k: "(10::nat) \<le> prod_list (outputShape example_mobilenet)"
    by (simp add: example_mobilenet_def)
  have fin: "\<exists>r. finish example_env (?L, 10, JSFunction 2) = [Called 2 r] \<and> length r = 10"
    using queued_predictions_replayed [OF h1 refl h3 refl, where q = ?q
        and el = "HTMLImageElement small_image" and f = 2 and logits = ?L and k = 10
        and cb = "JSFunction 2"] m r2 k
    by auto
  from h1 h3 qc sn pd h2 once fin show ?thesis by blast
qed

section \<open>The ranking a prediction returns\<close>

text \<open>
  C4, as the code has it. On a loaded classifier \<open>predict(k, callback)\<close> with
  \<open>k \<ge> 1\<close> hands \<open>k\<close> and the full network's output to \<open>getTopKClasses\<close>. When \<open>k\<close>
  is at most the number of outputs (the vocabulary size) the ranking returned has \<open>k\<close>
  predictions in order of non-increasing probability. When \<open>k\<close> is larger nothing is
  clamped: the ranking fails with a \<open>TypeError\<close>.
\<close>

theorem predict_topK_ranking:
  assumes "modelLoaded st" and "mobilenet st = Some m" and "1 \<le> k"
    and "\<forall>n. cb \<noteq> JSNumber (Suc n)"
    and "predict env st (Num k) cb cb3 = (st', [Awaiting logits topK cb'])"
  shows "topK = k \<and> cb' = cb \<and> length (vals logits) = prod_list (outputShape m)
       \<and> (k \<le> prod_list (outputShape m) \<longrightarrow>
            (\<exists>r. snd (getTopKClasses env logits topK cb') = Inr r \<and> length r = k
                 \<and> sorted_wrt (\<lambda>a b. probability b \<le> probability a) r))
       \<and> (prod_list (outputShape m) < k \<longrightarrow>
            snd (getTopKClasses env logits topK cb') = Inl TypeError)"
proof -
  from assms(1,3,5) have k: "topK = k" and cb: "cb' = cb"
    and lg: "predict_logits env st (map_option element_image (map_option HTMLVideoElement (video st)))
               = Inr logits"
    by (auto simp: predict_def Let_def js_or_def split: sum.splits)
  have len: "length (vals logits) = prod_list (outputShape m)"
    using predict_logits_shape [OF assms(2) lg] by simp
  from getTopKClasses_sorted [OF assms(4), of k logits env] k cb len show ?thesis by simp
qed

text \<open>
  C4 as stated fails: asked for 1001 of 1000 classes, the prediction throws instead of
  returning 1000 predictions.
\<close>

theorem predict_does_not_clamp:
  "modelLoaded video_classifier
   \<and> snd (predict example_env video_classifier (Num 1001) (JSFunction 0) JSNull) =
       [Awaiting \<lparr>shape = [1, 1000], vals = tabulate 1000 (\<lambda>k. 1 / 1000)\<rparr> 1001 (JSFunction 0)]
   \<and> length (tabulate 1000 (\<lambda>k. 1 / 1000 :: real)) = 1000
   \<and> getTopKClasses example_env \<lparr>shape = [1, 1000], vals = tabulate 1000 (\<lambda>k. 1 / 1000)\<rparr>
         1001 (JSFunction 0) = ([], Inl TypeError)"
  by (simp add: video_classifier_def example_defs eval_defs predict_eval_defs
      getTopKClasses_def rank_topk_eq length_tabulate)

theorem predict_topK_ranking_witness:
  "modelLoaded video_classifier
   \<and> mobilenet video_classifier = Some example_mobilenet
   \<and> predict example_env video_classifier (Num 3) (JSFunction 0) JSNull =
       (video_classifier,
        [Awaiting \<lparr>shape = [1, 1000], vals = tabulate 1000 (\<lambda>k. 1 / 1000)\<rparr> 3 (JSFunction 0)])
   \<and> (\<exists>r. snd (getTopKClasses example_env \<lparr>shape = [1, 1000], vals = tabulate 1000 (\<lambda>k. 1 / 1000)\<rparr>
               3 (JSFunction 0)) = Inr r
          \<and> length r = 3 \<and> sorted_wrt (\<lambda>a b. probability b \<le> probability a) r)"
proof -
  have l: "modelLoaded video_classifier"
    by (simp add: video_classifier_def example_defs eval_defs)
  have m: "mobilenet video_classifier = Some example_mobilenet"
    by (simp add: video_classifier_def example_defs eval_defs)
  have p: "predict example_env video_classifier (Num 3) (JSFunction 0) JSNull =
       (video_classifier,
        [Awaiting \<lparr>shape = [1, 1000], vals = tabulate 1000 (\<lambda>k. 1 / 1000)\<rparr> 3 (JSFunction 0)])"
    by (simp add: video_classifier_def example_defs eval_defs predict_eval_defs)
  have k: "1 \<le> (3::nat)" by simp
  have c: "\<forall>n. JSFunction 0 \<noteq> JSNumber (Suc n)" by simp
  have o: "(3::nat) \<le> prod_list (outputShape example_mobilenet)"
    by (simp add: example_mobilenet_def)
  from predict_topK_ranking [OF l m k c p] o l m p show ?thesis by blast
qed

end
